theory Spec2Isabelle
  imports Complex_Main "HOL-Library.Sublist"
begin

section \<open>Rate limiter (lib/rate\_limiter.py)\<close>

text \<open>
  \<^verbatim>\<open>st.session_state\<close> is a per-session dictionary; the limiter keeps, under the key
  \<^verbatim>\<open>rate_limit_{user_id}_{action}\<close>, the list of the instants of the calls it allowed.
  An instant (\<^verbatim>\<open>datetime\<close>) is an integer number of microseconds, and
  \<^verbatim>\<open>timedelta(minutes=m)\<close> is \<open>m * 60000000\<close> of them.
\<close>

type_synonym timestamp = int

type_synonym session_state = "string \<rightharpoonup> timestamp list"

definition timedelta_minutes :: "int \<Rightarrow> int" where
  "timedelta_minutes m = m * 60000000"

fun digit_char :: "nat \<Rightarrow> char" where
  "digit_char n = char_of (48 + n)"

fun str_nat :: "nat \<Rightarrow> string" where
  "str_nat n = (if n < 10 then [digit_char n] else str_nat (n div 10) @ [digit_char (n mod 10)])"

definition str_int :: "int \<Rightarrow> string" where
  "str_int i = (if i < 0 then CHR ''-'' # str_nat (nat (- i)) else str_nat (nat i))"

definition rate_key :: "int \<Rightarrow> string \<Rightarrow> string" where
  "rate_key user_id action = ''rate_limit_'' @ str_int user_id @ ''_'' @ action"

text \<open>
  \<^verbatim>\<open>check_rate_limit\<close> reads the clock twice: \<open>now\<close> for the cutoff and \<open>now'\<close> for the
  instant it records. The result is the returned flag and the session state it leaves.
  (\<^verbatim>\<open>show_error\<close> only selects whether a message is drawn.)
\<close>

definition check_rate_limit ::
  "session_state \<Rightarrow> timestamp \<Rightarrow> timestamp \<Rightarrow> int \<Rightarrow> string \<Rightarrow> int \<Rightarrow> int \<Rightarrow> bool \<times> session_state" where
  "check_rate_limit ss now now' user_id action max_requests window_minutes =
     (let key = rate_key user_id action;
          ss1 = (case ss key of None \<Rightarrow> ss(key \<mapsto> []) | Some _ \<Rightarrow> ss);
          cutoff_time = now - timedelta_minutes window_minutes;
          kept = filter (\<lambda>timestamp. timestamp > cutoff_time)
                   (case ss1 key of None \<Rightarrow> [] | Some ts \<Rightarrow> ts);
          ss2 = ss1(key \<mapsto> kept)
      in if int (length kept) \<ge> max_requests then (False, ss2)
         else (True, ss2(key \<mapsto> kept @ [now'])))"

definition RATE_LIMITS :: "(string \<times> int \<times> int) list" where
  "RATE_LIMITS =
     [(''create_task'', 10, 5),
      (''edit_task'', 20, 5),
      (''delete_task'', 10, 5),
      (''apply_task'', 20, 5),
      (''update_profile'', 5, 10),
      (''send_notification'', 50, 5),
      (''approve_volunteer'', 100, 5)]"

definition check_action_rate_limit ::
  "session_state \<Rightarrow> timestamp \<Rightarrow> timestamp \<Rightarrow> int \<Rightarrow> string \<Rightarrow> bool \<times> session_state" where
  "check_action_rate_limit ss now now' user_id action =
     (case map_of RATE_LIMITS action of
        None \<Rightarrow> (True, ss)
      | Some (max_requests, window_minutes) \<Rightarrow>
          check_rate_limit ss now now' user_id action max_requests window_minutes)"

text \<open>
  A session's successive calls for one user and action; each call is the pair of its two
  clock readings. The flags are returned in call order.
\<close>

fun run_calls ::
  "session_state \<Rightarrow> int \<Rightarrow> string \<Rightarrow> (timestamp \<times> timestamp) list \<Rightarrow> bool list \<times> session_state" where
  "run_calls ss user_id action [] = ([], ss)"
| "run_calls ss user_id action ((now, now') # calls) =
     (case check_action_rate_limit ss now now' user_id action of
        (ok, ss') \<Rightarrow>
          (case run_calls ss' user_id action calls of
             (oks, ss'') \<Rightarrow> (ok # oks, ss'')))"

text \<open>The clock never runs backwards: every reading is at least the one before it.\<close>

fun clock_ok :: "timestamp \<Rightarrow> (timestamp \<times> timestamp) list \<Rightarrow> bool" where
  "clock_ok prev [] = True"
| "clock_ok prev ((now, now') # calls) = (prev \<le> now \<and> now \<le> now' \<and> clock_ok now' calls)"

text \<open>
  The limiter as the specification words it, over the whole history of allowed calls
  (nothing is ever forgotten): a call is allowed exactly when fewer than \<open>max_requests\<close>
  allowed calls lie within the trailing window, and an allowed call is recorded.
\<close>

fun window_limiter :: "int \<Rightarrow> int \<Rightarrow> timestamp list \<Rightarrow> (timestamp \<times> timestamp) list \<Rightarrow> bool list" where
  "window_limiter max_requests window_minutes hist [] = []"
| "window_limiter max_requests window_minutes hist ((now, now') # calls) =
     (if int (length (filter (\<lambda>t. t > now - timedelta_minutes window_minutes) hist)) < max_requests
      then True # window_limiter max_requests window_minutes (hist @ [now']) calls
      else False # window_limiter max_requests window_minutes hist calls)"

definition session_log :: "session_state \<Rightarrow> int \<Rightarrow> string \<Rightarrow> timestamp list" where
  "session_log ss user_id action =
     (case ss (rate_key user_id action) of None \<Rightarrow> [] | Some ts \<Rightarrow> ts)"

section \<open>Value calculator (lib/monetisation\_helper.py, not among the sources)\<close>

text \<open>
  A calendar date is its day number (Python's \<^verbatim>\<open>date.toordinal()\<close>); amounts of money and
  wage rates (SQL \<^verbatim>\<open>REAL\<close>) are exact rationals.
\<close>

type_synonym date = int

datatype value_error = InvalidRangeError

text \<open>
  Modelled from the spec: \<^verbatim>\<open>calculate_duration_days\<close> of lib/monetisation\_helper.py is
  missing from the sources. Specification 4.1: the inclusive day count between two calendar
  dates; fails with \<^verbatim>\<open>InvalidRangeError\<close> if end < start.
\<close>

definition calculate_duration_days :: "date \<Rightarrow> date \<Rightarrow> value_error + int" where
  "calculate_duration_days start_date end_date =
     (if end_date < start_date then Inl InvalidRangeError
      else Inr (end_date - start_date + 1))"

definition round2 :: "rat \<Rightarrow> rat" where
  "round2 x = of_int (round (x * 100)) / 100"

text \<open>
  Modelled from the spec: \<^verbatim>\<open>calculate_volunteer_value\<close> of lib/monetisation\_helper.py is
  missing from the sources. Specification 4.1: wage rate times hours per day times duration
  in days, rounded to 2 decimal places; 0 if the wage rate is unset or not positive.
\<close>

definition calculate_volunteer_value :: "rat option \<Rightarrow> int \<Rightarrow> int \<Rightarrow> rat" where
  "calculate_volunteer_value wage_rate hours_per_day duration_days =
     (case wage_rate of
        None \<Rightarrow> 0
      | Some w \<Rightarrow> if w \<le> 0 then 0 else round2 (w * of_int hours_per_day * of_int duration_days))"

section \<open>Storage (lib/db.py)\<close>

text \<open>
  The tables \<^verbatim>\<open>tasks\<close>, \<^verbatim>\<open>volunteer_acceptances\<close>, \<^verbatim>\<open>notifications\<close> and
  \<^verbatim>\<open>volunteers\<close> of \<^verbatim>\<open>init_db\<close>, with the columns the lifecycle handlers read or write.
  A nullable column is an \<open>option\<close> (\<open>None\<close> is SQL \<^verbatim>\<open>NULL\<close>). The text columns
  \<^verbatim>\<open>approval_status\<close> and \<^verbatim>\<open>status\<close> only ever receive the literals the handlers
  write, which are the constructors below.
\<close>

datatype approval = Pending | Approved | Rejected

datatype completion = Accepted | Completed | Not_completed

datatype task_status = Open | Closed

record task =
  t_id :: int
  t_ngo_id :: int
  t_title :: string
  t_location :: "string option"
  t_address :: "string option"
  t_date :: "date option"
  t_start_date :: "date option"
  t_end_date :: "date option"
  t_hours :: "int option"
  t_status :: task_status
  t_max_volunteers :: "int option"
  t_contact_email :: "string option"
  t_contact_phone :: "string option"
  t_urgency :: "string option"
  t_age_requirement :: "string option"
  t_physical_requirements :: "string option"
  t_equipment_needed :: "string option"
  t_is_deleted :: int
  t_wage_rate :: "rat option"

record acceptance =
  va_id :: int
  va_task_id :: int
  va_volunteer_id :: int
  va_availability_date :: "date option"
  va_hours_committed :: "int option"
  va_contact_email :: "string option"
  va_contact_phone :: "string option"
  va_additional_notes :: "string option"
  va_approval_status :: "approval option"
  va_status :: "completion option"
  va_completion_note :: "string option"
  va_certificate_pushed :: int
  va_monetisation_value :: rat

record notification =
  n_id :: int
  n_user_type :: string
  n_user_id :: int
  n_message :: string
  n_notification_type :: string
  n_related_id :: int
  n_is_read :: int

record volunteer =
  v_id :: int
  v_total_value_generated :: rat

text \<open>
  The database: the four tables in insertion order and the two \<^verbatim>\<open>SERIAL\<close> counters the
  handlers draw row ids from.
\<close>

record db =
  tasks :: "task list"
  volunteer_acceptances :: "acceptance list"
  notifications :: "notification list"
  volunteers :: "volunteer list"
  acceptances_seq :: int
  notifications_seq :: int

datatype db_error = UniqueViolation | ForeignKeyViolation | OperationalError | TypeError

text \<open>
  A statement either changes the database or raises. \<^verbatim>\<open>execute\<close> runs one statement in
  a connection of its own (\<^verbatim>\<open>get_conn\<close>): it commits when the statement succeeds; when the
  statement raises it rolls back, so the database stays as it was, and re-raises. The first
  argument says whether the storage fails during this call (a lost connection,
  \<^verbatim>\<open>psycopg2.OperationalError\<close>).
\<close>

type_synonym statement = "db \<Rightarrow> db_error + db"

definition execute :: "bool \<Rightarrow> statement \<Rightarrow> db \<Rightarrow> db \<times> db_error option" where
  "execute storage_fails stmt s =
     (if storage_fails then (s, Some OperationalError)
      else case stmt s of
             Inl e \<Rightarrow> (s, Some e)
           | Inr s' \<Rightarrow> (s', None))"

subsection \<open>The statements the handlers issue\<close>

text \<open>
  \<^verbatim>\<open>INSERT INTO volunteer_acceptances(...) VALUES(..., 'pending', 'accepted')\<close>, under the
  table's \<^verbatim>\<open>UNIQUE(task_id, volunteer_id)\<close> and its two foreign keys; the columns not
  listed take their defaults.
\<close>

definition insert_acceptance ::
  "int \<Rightarrow> int \<Rightarrow> date option \<Rightarrow> int \<Rightarrow> string \<Rightarrow> string \<Rightarrow> string \<Rightarrow> statement" where
  "insert_acceptance task_id volunteer_id availability_date hours_committed contact_email
       contact_phone additional_notes s =
     (if list_ex (\<lambda>va. va_task_id va = task_id \<and> va_volunteer_id va = volunteer_id)
           (volunteer_acceptances s)
      then Inl UniqueViolation
      else if list_ex (\<lambda>t. t_id t = task_id) (tasks s) \<and>
              list_ex (\<lambda>v. v_id v = volunteer_id) (volunteers s)
      then Inr (s\<lparr>volunteer_acceptances := volunteer_acceptances s @
                  [\<lparr>va_id = acceptances_seq s + 1,
                    va_task_id = task_id,
                    va_volunteer_id = volunteer_id,
                    va_availability_date = availability_date,
                    va_hours_committed = Some hours_committed,
                    va_contact_email = Some contact_email,
                    va_contact_phone = Some contact_phone,
                    va_additional_notes = Some additional_notes,
                    va_approval_status = Some Pending,
                    va_status = Some Accepted,
                    va_completion_note = None,
                    va_certificate_pushed = 0,
                    va_monetisation_value = 0\<rparr>],
                acceptances_seq := acceptances_seq s + 1\<rparr>)
      else Inl ForeignKeyViolation)"

text \<open>\<^verbatim>\<open>UPDATE volunteer_acceptances SET ... WHERE id=?\<close> and \<^verbatim>\<open>DELETE ... WHERE id=?\<close>.\<close>

definition update_acceptance :: "int \<Rightarrow> (acceptance \<Rightarrow> acceptance) \<Rightarrow> statement" where
  "update_acceptance acceptance_id f s =
     Inr (s\<lparr>volunteer_acceptances :=
              map (\<lambda>va. if va_id va = acceptance_id then f va else va) (volunteer_acceptances s)\<rparr>)"

definition delete_acceptance :: "int \<Rightarrow> statement" where
  "delete_acceptance acceptance_id s =
     Inr (s\<lparr>volunteer_acceptances :=
              filter (\<lambda>va. va_id va \<noteq> acceptance_id) (volunteer_acceptances s)\<rparr>)"

text \<open>\<^verbatim>\<open>UPDATE tasks SET ... WHERE id=?\<close>.\<close>

definition update_task :: "int \<Rightarrow> (task \<Rightarrow> task) \<Rightarrow> statement" where
  "update_task task_id f s =
     Inr (s\<lparr>tasks := map (\<lambda>t. if t_id t = task_id then f t else t) (tasks s)\<rparr>)"

text \<open>
  \<^verbatim>\<open>INSERT INTO notifications(user_type, user_id, message, notification_type, related_id)
  VALUES('volunteer', ?, ?, <type>, ?)\<close>; \<^verbatim>\<open>is_read\<close> takes its default 0.
\<close>

definition insert_notification :: "int \<Rightarrow> string \<Rightarrow> string \<Rightarrow> int \<Rightarrow> statement" where
  "insert_notification user_id message notification_type related_id s =
     Inr (s\<lparr>notifications := notifications s @
              [\<lparr>n_id = notifications_seq s + 1,
                n_user_type = ''volunteer'',
                n_user_id = user_id,
                n_message = message,
                n_notification_type = notification_type,
                n_related_id = related_id,
                n_is_read = 0\<rparr>],
            notifications_seq := notifications_seq s + 1\<rparr>)"

subsection \<open>The queries the handlers issue\<close>

text \<open>\<^verbatim>\<open>fetchone\<close> returns the first row of the result, or \<^verbatim>\<open>None\<close>.\<close>

definition fetchone :: "'a list \<Rightarrow> 'a option" where
  "fetchone rows = (case rows of [] \<Rightarrow> None | row # _ \<Rightarrow> Some row)"

text \<open>
  \<^verbatim>\<open>SELECT COUNT(*) FROM volunteer_acceptances WHERE task_id=? AND approval_status='approved'
  AND (status IS NULL OR status IN ('accepted','completed'))\<close>: the approved count, as the
  browse tab, the approved-tab withdrawal, the removal and \<^verbatim>\<open>get_tasks_with_counts\<close>
  compute it.
\<close>

definition occupies_slot :: "acceptance \<Rightarrow> bool" where
  "occupies_slot va =
     (va_status va = None \<or> va_status va = Some Accepted \<or> va_status va = Some Completed)"

definition volunteer_count :: "db \<Rightarrow> int \<Rightarrow> int" where
  "volunteer_count s task_id =
     int (length (filter (\<lambda>va. va_task_id va = task_id \<and> va_approval_status va = Some Approved \<and>
                               occupies_slot va) (volunteer_acceptances s)))"

text \<open>
  \<^verbatim>\<open>get_task_volunteers(task_id)\<close>: the task's rows whose approval status is
  \<^verbatim>\<open>'approved'\<close>, respectively \<^verbatim>\<open>'pending'\<close>. The \<^verbatim>\<open>st.cache_data\<close> wrappers of
  lib/query\_helpers.py are read-through caches; the model reads the store itself.
\<close>

definition approved_vols :: "db \<Rightarrow> int \<Rightarrow> acceptance list" where
  "approved_vols s task_id =
     filter (\<lambda>va. va_task_id va = task_id \<and> va_approval_status va = Some Approved)
       (volunteer_acceptances s)"

definition pending_vols :: "db \<Rightarrow> int \<Rightarrow> acceptance list" where
  "pending_vols s task_id =
     filter (\<lambda>va. va_task_id va = task_id \<and> va_approval_status va = Some Pending)
       (volunteer_acceptances s)"

text \<open>
  \<^verbatim>\<open>get_tasks_with_counts(ngo_id)\<close>: the organisation's tasks that are not deleted (the
  count column is \<open>volunteer_count\<close>).
\<close>

definition ngo_tasks :: "db \<Rightarrow> int \<Rightarrow> task list" where
  "ngo_tasks s ngo_id = filter (\<lambda>t. t_ngo_id t = ngo_id \<and> t_is_deleted t = 0) (tasks s)"

text \<open>
  The browse tab's listing: \<^verbatim>\<open>... FROM tasks JOIN ngos ... WHERE tasks.is_deleted = 0\<close>; the
  optional filters of the page only narrow it.
\<close>

definition browse_tasks :: "db \<Rightarrow> task list" where
  "browse_tasks s = filter (\<lambda>t. t_is_deleted t = 0) (tasks s)"

section \<open>Python string helpers\<close>

text \<open>\<^verbatim>\<open>str.strip()\<close>, on ASCII: white space is the codes 9 to 13, 28 to 31 and 32.\<close>

definition is_space :: "char \<Rightarrow> bool" where
  "is_space c = (let n = (of_char c :: nat) in (9 \<le> n \<and> n \<le> 13) \<or> (28 \<le> n \<and> n \<le> 32))"

definition strip :: "string \<Rightarrow> string" where
  "strip s = rev (dropWhile is_space (rev (dropWhile is_space s)))"

text \<open>\<^verbatim>\<open>str(x)\<close> of a text column: \<^verbatim>\<open>None\<close> prints as the four letters.\<close>

definition py_str :: "string option \<Rightarrow> string" where
  "py_str x = (case x of None \<Rightarrow> ''None'' | Some v \<Rightarrow> v)"

definition upper_char :: "char \<Rightarrow> char" where
  "upper_char c = (let n = (of_char c :: nat) in if 97 \<le> n \<and> n \<le> 122 then char_of (n - 32) else c)"

definition lower_char :: "char \<Rightarrow> char" where
  "lower_char c = (let n = (of_char c :: nat) in if 65 \<le> n \<and> n \<le> 90 then char_of (n + 32) else c)"

definition capitalize :: "string \<Rightarrow> string" where
  "capitalize s = (case s of [] \<Rightarrow> [] | c # cs \<Rightarrow> upper_char c # map lower_char cs)"

definition replace_char :: "char \<Rightarrow> char \<Rightarrow> string \<Rightarrow> string" where
  "replace_char a b s = map (\<lambda>c. if c = a then b else c) s"

fun join :: "string \<Rightarrow> string list \<Rightarrow> string" where
  "join sep [] = []"
| "join sep [x] = x"
| "join sep (x # y # ys) = x @ sep @ join sep (y # ys)"

section \<open>Volunteer dashboard (pages/2\_Volunteer\_Dashboard.py)\<close>

subsection \<open>Browse tab\<close>

text \<open>
  For each listed task \<open>t\<close> the page reads the volunteer's own row
  (\<^verbatim>\<open>already_accepted\<close>) and the approved count, and then shows exactly one of six things.
\<close>

definition already_accepted :: "db \<Rightarrow> int \<Rightarrow> int \<Rightarrow> acceptance option" where
  "already_accepted s task_id volunteer_id =
     fetchone (filter (\<lambda>va. va_task_id va = task_id \<and> va_volunteer_id va = volunteer_id)
                 (volunteer_acceptances s))"

definition is_full :: "db \<Rightarrow> task \<Rightarrow> bool" where
  "is_full s t =
     (case t_max_volunteers t of
        None \<Rightarrow> False
      | Some max_vols \<Rightarrow> max_vols \<noteq> 0 \<and> volunteer_count s (t_id t) \<ge> max_vols)"

datatype browse_branch =
    Closed_notice
  | Rejected_notice acceptance
  | Pending_notice acceptance
  | Approved_notice acceptance
  | Full_notice
  | Apply_form

definition browse_branch :: "db \<Rightarrow> task \<Rightarrow> int \<Rightarrow> browse_branch" where
  "browse_branch s t volunteer_id =
     (if t_status t = Closed then Closed_notice
      else case already_accepted s (t_id t) volunteer_id of
             Some a \<Rightarrow>
               (case va_approval_status a of
                  Some Rejected \<Rightarrow> Rejected_notice a
                | Some Approved \<Rightarrow> Approved_notice a
                | _ \<Rightarrow> Pending_notice a)
           | None \<Rightarrow> if is_full s t then Full_notice else Apply_form)"

text \<open>"Remove from My List" (rejected) and "Withdraw Application" (pending).\<close>

definition remove_from_my_list :: "acceptance \<Rightarrow> db \<Rightarrow> db" where
  "remove_from_my_list already s = fst (execute False (delete_acceptance (va_id already)) s)"

definition withdraw_application :: "acceptance \<Rightarrow> db \<Rightarrow> db" where
  "withdraw_application already s = fst (execute False (delete_acceptance (va_id already)) s)"

text \<open>
  "Withdraw" (approved, shown while the row's status is accepted). \<open>t\<close> is the task row the
  page was drawn from.
\<close>

definition withdraw :: "task \<Rightarrow> acceptance \<Rightarrow> db \<Rightarrow> db" where
  "withdraw t already s =
     (let s1 = fst (execute False (delete_acceptance (va_id already)) s)
      in if t_status t = Closed then
           (case t_max_volunteers t of
              None \<Rightarrow> s1
            | Some max_vols \<Rightarrow>
                if max_vols \<noteq> 0 \<and> volunteer_count s1 (t_id t) < max_vols
                then fst (execute False (update_task (t_id t) (\<lambda>x. x\<lparr>t_status := Open\<rparr>)) s1)
                else s1)
         else s1)"

text \<open>
  "Apply for Task". The three inputs are validated, then the row is inserted inside
  \<^verbatim>\<open>try\<close>; \<^verbatim>\<open>int(hours_committed)\<close> raises \<^verbatim>\<open>TypeError\<close> on a task without hours. The
  outcome tells which message the page shows.
\<close>

datatype apply_outcome =
    Notes_required
  | Email_required
  | Phone_required
  | Submitted
  | Failed db_error

definition apply_for_task ::
  "task \<Rightarrow> int \<Rightarrow> string \<Rightarrow> string \<Rightarrow> string \<Rightarrow> db \<Rightarrow> db \<times> apply_outcome" where
  "apply_for_task t volunteer_id contact_email contact_phone additional_notes s =
     (if additional_notes = [] \<or> strip additional_notes = [] then (s, Notes_required)
      else if contact_email = [] \<or> strip contact_email = [] then (s, Email_required)
      else if contact_phone = [] \<or> strip contact_phone = [] then (s, Phone_required)
      else case t_hours t of
             None \<Rightarrow> (s, Failed TypeError)
           | Some hours_committed \<Rightarrow>
               (case execute False
                       (insert_acceptance (t_id t) volunteer_id
                          (case t_start_date t of Some d \<Rightarrow> Some d | None \<Rightarrow> t_date t)
                          hours_committed contact_email contact_phone additional_notes) s of
                  (s', None) \<Rightarrow> (s', Submitted)
                | (s', Some e) \<Rightarrow> (s', Failed e)))"

text \<open>
  The message of each outcome. \<open>exception_text\<close> is \<^verbatim>\<open>str(e)\<close>, the wording the database
  driver gives the exception; the handler looks for \<^verbatim>\<open>"UNIQUE constraint"\<close> in it.
\<close>

definition apply_message :: "(db_error \<Rightarrow> string) \<Rightarrow> apply_outcome \<Rightarrow> string" where
  "apply_message exception_text outcome =
     (case outcome of
        Notes_required \<Rightarrow>
          ''Please explain why you should be accepted for this task. This field is required.''
      | Email_required \<Rightarrow> ''Email is required.''
      | Phone_required \<Rightarrow> ''Phone number is required.''
      | Submitted \<Rightarrow> ''Application submitted successfully! Waiting for NGO approval.''
      | Failed e \<Rightarrow>
          if sublist ''UNIQUE constraint'' (exception_text e)
          then ''You have already applied for this task.''
          else ''Failed to submit application: '' @ exception_text e)"

subsection \<open>Accepted tab\<close>

text \<open>
  "Withdraw from Task", shown for each of the volunteer's rows whose status is accepted
  (whatever its approval status). The count it takes after the deletion has no approval
  condition: \<^verbatim>\<open>WHERE task_id=? AND (status IS NULL OR status IN ('accepted','completed'))\<close>.
\<close>

definition count_after_any_approval :: "db \<Rightarrow> int \<Rightarrow> int" where
  "count_after_any_approval s task_id =
     int (length (filter (\<lambda>va. va_task_id va = task_id \<and> occupies_slot va)
                    (volunteer_acceptances s)))"

definition withdraw_from_task :: "acceptance \<Rightarrow> db \<Rightarrow> db" where
  "withdraw_from_task acc s =
     (let s1 = fst (execute False (delete_acceptance (va_id acc)) s)
      in case fetchone (filter (\<lambda>t. t_id t = va_task_id acc) (tasks s1)) of
           None \<Rightarrow> s1
         | Some task_info \<Rightarrow>
             if t_status task_info = Closed then
               (case t_max_volunteers task_info of
                  None \<Rightarrow> s1
                | Some max_vols \<Rightarrow>
                    if max_vols \<noteq> 0 \<and> count_after_any_approval s1 (va_task_id acc) < max_vols
                    then fst (execute False
                                (update_task (va_task_id acc) (\<lambda>x. x\<lparr>t_status := Open\<rparr>)) s1)
                    else s1)
             else s1)"

section \<open>Organisation dashboard (pages/1\_NGO\_Dashboard.py)\<close>

subsection \<open>Drawing the task list\<close>

text \<open>
  Every run of the page draws the organisation's task list from one
  \<^verbatim>\<open>get_tasks_with_counts\<close> result, closing each open task whose approved count has
  reached its maximum ("Auto-close task if max volunteers reached"). Every handler below
  ends in \<^verbatim>\<open>st.rerun()\<close>, which runs the page again.
\<close>

definition auto_close_due :: "db \<Rightarrow> task \<Rightarrow> bool" where
  "auto_close_due s t =
     (case t_max_volunteers t of
        None \<Rightarrow> False
      | Some max_vols \<Rightarrow>
          max_vols \<noteq> 0 \<and> max_vols > 0 \<and> volunteer_count s (t_id t) \<ge> max_vols \<and> t_status t = Open)"

definition render_tasks :: "int \<Rightarrow> db \<Rightarrow> db" where
  "render_tasks ngo_id s =
     foldl (\<lambda>s' t. if auto_close_due s t
                    then fst (execute False (update_task (t_id t) (\<lambda>x. x\<lparr>t_status := Closed\<rparr>)) s')
                    else s')
       s (ngo_tasks s ngo_id)"

subsection \<open>Pending applications\<close>

text \<open>
  "Approve" writes only when the rate limiter allows the action; \<open>allowed\<close> is the flag
  \<open>check_action_rate_limit\<close> returned for \<^verbatim>\<open>approve_volunteer\<close>. "Reject" is not limited.
\<close>

definition approve :: "bool \<Rightarrow> acceptance \<Rightarrow> db \<Rightarrow> db" where
  "approve allowed vol s =
     (if allowed
      then fst (execute False
                  (update_acceptance (va_id vol) (\<lambda>va. va\<lparr>va_approval_status := Some Approved\<rparr>)) s)
      else s)"

definition reject :: "acceptance \<Rightarrow> db \<Rightarrow> db" where
  "reject vol s =
     fst (execute False
            (update_acceptance (va_id vol) (\<lambda>va. va\<lparr>va_approval_status := Some Rejected\<rparr>)) s)"

subsection \<open>Approved volunteers\<close>

text \<open>
  The volunteer's aggregate, as \<^verbatim>\<open>get_analytics_data\<close> adds values up: over the rows that
  are completed and approved.
\<close>

definition volunteer_total :: "db \<Rightarrow> int \<Rightarrow> rat" where
  "volunteer_total s volunteer_id =
     sum_list (map va_monetisation_value
       (filter (\<lambda>va. va_volunteer_id va = volunteer_id \<and> va_status va = Some Completed \<and>
                      va_approval_status va = Some Approved) (volunteer_acceptances s)))"

text \<open>
  Modelled from the spec: \<^verbatim>\<open>update_volunteer_total_value\<close> of lib/monetisation\_helper.py is
  missing from the sources. Specification 4.3: recompute the owning volunteer's aggregate
  total value (the column \<^verbatim>\<open>volunteers.total_value_generated\<close>).
\<close>

definition update_volunteer_total_value :: "int \<Rightarrow> db \<Rightarrow> db" where
  "update_volunteer_total_value volunteer_id s =
     s\<lparr>volunteers :=
         map (\<lambda>v. if v_id v = volunteer_id
                   then v\<lparr>v_total_value_generated := volunteer_total s volunteer_id\<rparr> else v)
           (volunteers s)\<rparr>"

definition mark_completed :: "acceptance \<Rightarrow> db \<Rightarrow> db" where
  "mark_completed vol s =
     fst (execute False
            (update_acceptance (va_id vol)
               (\<lambda>va. va\<lparr>va_status := Some Completed, va_completion_note := None\<rparr>)) s)"

text \<open>
  "Work Completed". The value is computed only when the task row has a start date, an end
  date and a wage rate that is neither \<^verbatim>\<open>NULL\<close> nor 0; otherwise the row is just marked
  completed ("No wage rate set, just mark as completed"). An exception of the duration
  helper leaves the handler before any write. The specification does not say what the value
  helper does with a \<^verbatim>\<open>NULL\<close> hours column; it is taken as 0 hours.
\<close>

definition work_completed :: "task \<Rightarrow> acceptance \<Rightarrow> db \<Rightarrow> db" where
  "work_completed t vol s =
     (case fetchone (filter (\<lambda>x. t_id x = t_id t) (tasks s)) of
        Some task_data \<Rightarrow>
          (case (t_start_date task_data, t_end_date task_data, t_wage_rate task_data) of
             (Some start_date, Some end_date, Some wage_rate) \<Rightarrow>
               if wage_rate \<noteq> 0 then
                 (case calculate_duration_days start_date end_date of
                    Inl _ \<Rightarrow> s
                  | Inr duration_days \<Rightarrow>
                      (let monetisation_value =
                             calculate_volunteer_value (Some wage_rate)
                               (case t_hours task_data of None \<Rightarrow> 0 | Some h \<Rightarrow> h) duration_days;
                           s1 = fst (execute False
                                  (update_acceptance (va_id vol)
                                     (\<lambda>va. va\<lparr>va_status := Some Completed,
                                               va_completion_note := None,
                                               va_monetisation_value := monetisation_value\<rparr>)) s)
                       in update_volunteer_total_value (va_volunteer_id vol) s1))
               else mark_completed vol s
           | _ \<Rightarrow> mark_completed vol s)
      | None \<Rightarrow> mark_completed vol s)"

text \<open>"Work Not Done": needs a description; the value is forced to 0.\<close>

definition work_not_done :: "acceptance \<Rightarrow> string \<Rightarrow> db \<Rightarrow> db" where
  "work_not_done vol issue s =
     (if strip issue \<noteq> [] then
        update_volunteer_total_value (va_volunteer_id vol)
          (fst (execute False
                  (update_acceptance (va_id vol)
                     (\<lambda>va. va\<lparr>va_status := Some Not_completed,
                               va_completion_note := Some (strip issue),
                               va_monetisation_value := 0\<rparr>)) s))
      else s)"

text \<open>"Certificate Sent", shown while the row's \<^verbatim>\<open>certificate_pushed\<close> is 0.\<close>

definition certificate_sent :: "task \<Rightarrow> acceptance \<Rightarrow> db \<Rightarrow> db" where
  "certificate_sent t vol s =
     (let s1 = fst (execute False
                      (update_acceptance (va_id vol) (\<lambda>va. va\<lparr>va_certificate_pushed := 1\<rparr>)) s)
      in fst (execute False
                (insert_notification (va_volunteer_id vol)
                   (''Certificate has been sent to your Email/Phone Number : '' @ t_title t)
                   ''certificate_pushed'' (va_id vol)) s1))"

text \<open>"Remove", confirmed with "Yes": the context holds the row's id and the task's id.\<close>

definition confirm_remove :: "int \<Rightarrow> int \<Rightarrow> db \<Rightarrow> db" where
  "confirm_remove acceptance_id task_id s =
     (let s1 = fst (execute False (delete_acceptance acceptance_id) s)
      in case fetchone (filter (\<lambda>t. t_id t = task_id) (tasks s1)) of
           None \<Rightarrow> s1
         | Some task_info \<Rightarrow>
             if t_status task_info = Closed then
               (case t_max_volunteers task_info of
                  None \<Rightarrow> s1
                | Some max_vols \<Rightarrow>
                    if max_vols \<noteq> 0 \<and> volunteer_count s1 task_id < max_vols
                    then fst (execute False (update_task task_id (\<lambda>x. x\<lparr>t_status := Open\<rparr>)) s1)
                    else s1)
             else s1)"

subsection \<open>Task buttons\<close>

definition mark_closed :: "task \<Rightarrow> db \<Rightarrow> db" where
  "mark_closed t s = fst (execute False (update_task (t_id t) (\<lambda>x. x\<lparr>t_status := Closed\<rparr>)) s)"

text \<open>
  "Confirm Delete": one notification per row of the task, each in an \<^verbatim>\<open>execute\<close> of its
  own, and then the soft delete in another. \<open>fails k\<close> says whether the storage fails during
  the handler's \<open>k\<close>-th call of \<^verbatim>\<open>execute\<close> (counted from 0); the exception is not caught,
  so the handler ends there. The result is the database left behind and that exception.
\<close>

fun notify_deleted ::
  "(nat \<Rightarrow> bool) \<Rightarrow> nat \<Rightarrow> string \<Rightarrow> int \<Rightarrow> int list \<Rightarrow> db \<Rightarrow> db \<times> db_error option" where
  "notify_deleted fails k message task_id [] s = (s, None)"
| "notify_deleted fails k message task_id (volunteer_id # rest) s =
     (case execute (fails k) (insert_notification volunteer_id message ''task_deleted'' task_id) s of
        (s', None) \<Rightarrow> notify_deleted fails (Suc k) message task_id rest s'
      | (s', Some e) \<Rightarrow> (s', Some e))"

definition affected_volunteers :: "db \<Rightarrow> int \<Rightarrow> int list" where
  "affected_volunteers s task_id =
     map va_volunteer_id (filter (\<lambda>va. va_task_id va = task_id) (volunteer_acceptances s))"

definition deleted_message :: "task \<Rightarrow> string \<Rightarrow> string" where
  "deleted_message t del_reason =
     ''Task '' @ [CHR 0x27] @ t_title t @ [CHR 0x27] @ '' has been deleted. Reason: '' @
     strip del_reason"

definition confirm_delete :: "(nat \<Rightarrow> bool) \<Rightarrow> task \<Rightarrow> string \<Rightarrow> db \<Rightarrow> db \<times> db_error option" where
  "confirm_delete fails t del_reason s =
     (if strip del_reason = [] then (s, None)
      else
        case notify_deleted fails 0 (deleted_message t del_reason) (t_id t)
               (affected_volunteers s (t_id t)) s of
          (s1, None) \<Rightarrow>
            execute (fails (length (affected_volunteers s (t_id t))))
              (update_task (t_id t) (\<lambda>x. x\<lparr>t_is_deleted := 1\<rparr>)) s1
        | (s1, Some e) \<Rightarrow> (s1, Some e))"

subsection \<open>Editing a task\<close>

text \<open>The values of the edit form's widgets, for the columns the model keeps.\<close>

record edit_form =
  edit_title :: string
  edit_desc :: string
  edit_loc :: string
  edit_address :: string
  edit_start_date :: "date option"
  edit_end_date :: "date option"
  edit_hours :: int
  edit_max_volunteers :: int
  edit_contact_email :: string
  edit_contact_phone :: string
  edit_urgency :: string
  edit_age_requirement :: string
  edit_physical :: string
  edit_equipment :: string
  edit_wage_rate :: rat

text \<open>
  Change detection over the eleven critical fields, in the order of the \<^verbatim>\<open>critical_fields\<close>
  dictionary. The handler compares \<^verbatim>\<open>str(old_val)\<close> with \<^verbatim>\<open>str(new_val)\<close>: a stored date is
  printed, or is the empty text when missing, and a form date always prints as a date, so
  the two texts differ exactly when the stored date is missing or another day; stored hours
  count as 0 when missing; a text column is compared through \<open>py_str\<close>.
\<close>

definition field_name :: "string \<Rightarrow> string" where
  "field_name field = capitalize (replace_char (CHR ''_'') (CHR '' '') field)"

definition changed_date :: "date option \<Rightarrow> date \<Rightarrow> bool" where
  "changed_date old_val new_val = (case old_val of None \<Rightarrow> True | Some d \<Rightarrow> d \<noteq> new_val)"

definition changed_hours :: "int option \<Rightarrow> int \<Rightarrow> bool" where
  "changed_hours old_val new_val = ((case old_val of None \<Rightarrow> 0 | Some h \<Rightarrow> h) \<noteq> new_val)"

definition changed_text :: "string option \<Rightarrow> string \<Rightarrow> bool" where
  "changed_text old_val new_val = (py_str old_val \<noteq> new_val)"

definition critical_changes :: "task \<Rightarrow> edit_form \<Rightarrow> date \<Rightarrow> date \<Rightarrow> string list" where
  "critical_changes task_to_edit f start_date end_date =
     map (field_name \<circ> fst) (filter snd
       [(''start_date'', changed_date (t_start_date task_to_edit) start_date),
        (''end_date'', changed_date (t_end_date task_to_edit) end_date),
        (''hours'', changed_hours (t_hours task_to_edit) (edit_hours f)),
        (''location'', changed_text (t_location task_to_edit) (edit_loc f)),
        (''address'', changed_text (t_address task_to_edit) (edit_address f)),
        (''contact_email'', changed_text (t_contact_email task_to_edit) (edit_contact_email f)),
        (''contact_phone'', changed_text (t_contact_phone task_to_edit) (edit_contact_phone f)),
        (''urgency'', changed_text (t_urgency task_to_edit) (edit_urgency f)),
        (''physical_requirements'',
           changed_text (t_physical_requirements task_to_edit) (edit_physical f)),
        (''age_requirement'', changed_text (t_age_requirement task_to_edit) (edit_age_requirement f)),
        (''equipment_needed'', changed_text (t_equipment_needed task_to_edit) (edit_equipment f))])"

definition updated_message :: "string \<Rightarrow> string list \<Rightarrow> string" where
  "updated_message title changes =
     ''Update for '' @ [CHR 0x27] @ title @ [CHR 0x27] @ '': '' @ join '', '' changes @
     '' have been changed. Please check the latest details.''"

fun notify_updated :: "string \<Rightarrow> int \<Rightarrow> int list \<Rightarrow> db \<Rightarrow> db" where
  "notify_updated message task_id [] s = s"
| "notify_updated message task_id (volunteer_id # rest) s =
     notify_updated message task_id rest
       (fst (execute False (insert_notification volunteer_id message ''task_updated'' task_id) s))"

text \<open>
  "Update Task". \<open>allowed\<close> is the flag \<open>check_action_rate_limit\<close> returned for
  \<^verbatim>\<open>edit_task\<close> (\<^verbatim>\<open>st.stop()\<close> when it is false); \<open>task_to_edit\<close> is the row the form was
  filled from.
\<close>

definition submit_update_task :: "bool \<Rightarrow> task \<Rightarrow> edit_form \<Rightarrow> db \<Rightarrow> db" where
  "submit_update_task allowed task_to_edit f s =
     (if \<not> allowed then s
      else if edit_title f = [] \<or> edit_desc f = [] \<or> edit_loc f = [] \<or> edit_address f = [] \<or>
              edit_contact_email f = [] \<or> edit_contact_phone f = [] then s
      else case (edit_start_date f, edit_end_date f) of
             (Some start_date, Some end_date) \<Rightarrow>
               if end_date < start_date then s
               else
                 (let changes = critical_changes task_to_edit f start_date end_date;
                      s1 = fst (execute False
                             (update_task (t_id task_to_edit)
                                (\<lambda>x. x\<lparr>t_title := edit_title f,
                                        t_location := Some (edit_loc f),
                                        t_address := Some (edit_address f),
                                        t_start_date := Some start_date,
                                        t_end_date := Some end_date,
                                        t_hours := Some (edit_hours f),
                                        t_max_volunteers := Some (edit_max_volunteers f),
                                        t_contact_email := Some (edit_contact_email f),
                                        t_contact_phone := Some (edit_contact_phone f),
                                        t_urgency := Some (edit_urgency f),
                                        t_age_requirement := Some (edit_age_requirement f),
                                        t_physical_requirements := Some (edit_physical f),
                                        t_equipment_needed := Some (edit_equipment f),
                                        t_wage_rate := Some (edit_wage_rate f)\<rparr>)) s)
                  in if changes \<noteq> [] then
                       notify_updated (updated_message (edit_title f) changes) (t_id task_to_edit)
                         (map va_volunteer_id (approved_vols s1 (t_id task_to_edit))) s1
                     else s1)
           | _ \<Rightarrow> s)"

section \<open>Sessions as sequences of events\<close>

text \<open>
  One event is one press of a button by a signed-in user, on the page as drawn from the
  current database: a button that the page does not show does nothing. An organisation's
  page is drawn again after each of its handlers (\<^verbatim>\<open>st.rerun()\<close>). \<open>Ngo_visit\<close> is a plain
  load of the organisation's page.
\<close>

datatype event =
    Apply int int string string string
  | Remove_from_my_list int int
  | Withdraw_application int int
  | Withdraw int int
  | Withdraw_from_task int int
  | Ngo_visit int
  | Approve int int int bool
  | Reject int int int
  | Work_completed int int int
  | Work_not_done int int int string
  | Certificate_sent int int int
  | Remove int int int
  | Mark_closed int int
  | Confirm_delete int int string
  | Update_task int int bool edit_form

definition listed :: "task list \<Rightarrow> int \<Rightarrow> task option" where
  "listed ts task_id = find (\<lambda>t. t_id t = task_id) ts"

definition shown :: "acceptance list \<Rightarrow> int \<Rightarrow> acceptance option" where
  "shown vols acceptance_id = find (\<lambda>va. va_id va = acceptance_id) vols"

text \<open>The rows of the accepted tab: the volunteer's rows joined with their tasks.\<close>

definition accepted_tasks :: "db \<Rightarrow> int \<Rightarrow> acceptance list" where
  "accepted_tasks s volunteer_id =
     filter (\<lambda>va. va_volunteer_id va = volunteer_id \<and>
                   list_ex (\<lambda>t. t_id t = va_task_id va) (tasks s)) (volunteer_acceptances s)"

fun volunteer_event :: "event \<Rightarrow> db \<Rightarrow> db" where
  "volunteer_event (Apply volunteer_id task_id contact_email contact_phone additional_notes) s =
     (case listed (browse_tasks s) task_id of
        None \<Rightarrow> s
      | Some t \<Rightarrow>
          (case browse_branch s t volunteer_id of
             Apply_form \<Rightarrow>
               fst (apply_for_task t volunteer_id contact_email contact_phone additional_notes s)
           | _ \<Rightarrow> s))"
| "volunteer_event (Remove_from_my_list volunteer_id task_id) s =
     (case listed (browse_tasks s) task_id of
        None \<Rightarrow> s
      | Some t \<Rightarrow>
          (case browse_branch s t volunteer_id of
             Rejected_notice a \<Rightarrow> remove_from_my_list a s
           | _ \<Rightarrow> s))"
| "volunteer_event (Withdraw_application volunteer_id task_id) s =
     (case listed (browse_tasks s) task_id of
        None \<Rightarrow> s
      | Some t \<Rightarrow>
          (case browse_branch s t volunteer_id of
             Pending_notice a \<Rightarrow> withdraw_application a s
           | _ \<Rightarrow> s))"
| "volunteer_event (Withdraw volunteer_id task_id) s =
     (case listed (browse_tasks s) task_id of
        None \<Rightarrow> s
      | Some t \<Rightarrow>
          (case browse_branch s t volunteer_id of
             Approved_notice a \<Rightarrow>
               if va_status a = None \<or> va_status a = Some Accepted then withdraw t a s else s
           | _ \<Rightarrow> s))"
| "volunteer_event (Withdraw_from_task volunteer_id acceptance_id) s =
     (case shown (accepted_tasks s volunteer_id) acceptance_id of
        None \<Rightarrow> s
      | Some acc \<Rightarrow>
          if va_status acc = None \<or> va_status acc = Some Accepted then withdraw_from_task acc s
          else s)"
| "volunteer_event _ s = s"

fun ngo_handler :: "event \<Rightarrow> db \<Rightarrow> db" where
  "ngo_handler (Approve ngo_id task_id acceptance_id allowed) s =
     (case listed (ngo_tasks s ngo_id) task_id of
        None \<Rightarrow> s
      | Some t \<Rightarrow>
          (case shown (pending_vols s (t_id t)) acceptance_id of
             None \<Rightarrow> s
           | Some vol \<Rightarrow> approve allowed vol s))"
| "ngo_handler (Reject ngo_id task_id acceptance_id) s =
     (case listed (ngo_tasks s ngo_id) task_id of
        None \<Rightarrow> s
      | Some t \<Rightarrow>
          (case shown (pending_vols s (t_id t)) acceptance_id of
             None \<Rightarrow> s
           | Some vol \<Rightarrow> reject vol s))"
| "ngo_handler (Work_completed ngo_id task_id acceptance_id) s =
     (case listed (ngo_tasks s ngo_id) task_id of
        None \<Rightarrow> s
      | Some t \<Rightarrow>
          (case shown (approved_vols s (t_id t)) acceptance_id of
             None \<Rightarrow> s
           | Some vol \<Rightarrow> work_completed t vol s))"
| "ngo_handler (Work_not_done ngo_id task_id acceptance_id issue) s =
     (case listed (ngo_tasks s ngo_id) task_id of
        None \<Rightarrow> s
      | Some t \<Rightarrow>
          (case shown (approved_vols s (t_id t)) acceptance_id of
             None \<Rightarrow> s
           | Some vol \<Rightarrow> work_not_done vol issue s))"
| "ngo_handler (Certificate_sent ngo_id task_id acceptance_id) s =
     (case listed (ngo_tasks s ngo_id) task_id of
        None \<Rightarrow> s
      | Some t \<Rightarrow>
          (case shown (approved_vols s (t_id t)) acceptance_id of
             None \<Rightarrow> s
           | Some vol \<Rightarrow> if va_certificate_pushed vol = 0 then certificate_sent t vol s else s))"
| "ngo_handler (Remove ngo_id task_id acceptance_id) s =
     (case listed (ngo_tasks s ngo_id) task_id of
        None \<Rightarrow> s
      | Some t \<Rightarrow>
          (case shown (approved_vols s (t_id t)) acceptance_id of
             None \<Rightarrow> s
           | Some vol \<Rightarrow> confirm_remove (va_id vol) (t_id t) s))"
| "ngo_handler (Mark_closed ngo_id task_id) s =
     (case listed (ngo_tasks s ngo_id) task_id of
        None \<Rightarrow> s
      | Some t \<Rightarrow> mark_closed t s)"
| "ngo_handler (Confirm_delete ngo_id task_id del_reason) s =
     (case listed (ngo_tasks s ngo_id) task_id of
        None \<Rightarrow> s
      | Some t \<Rightarrow> fst (confirm_delete (\<lambda>k. False) t del_reason s))"
| "ngo_handler (Update_task ngo_id task_id allowed f) s =
     (case fetchone (filter (\<lambda>t. t_id t = task_id \<and> t_ngo_id t = ngo_id) (tasks s)) of
        None \<Rightarrow> s
      | Some task_to_edit \<Rightarrow> submit_update_task allowed task_to_edit f s)"
| "ngo_handler _ s = s"

fun ngo_of :: "event \<Rightarrow> int option" where
  "ngo_of (Ngo_visit ngo_id) = Some ngo_id"
| "ngo_of (Approve ngo_id _ _ _) = Some ngo_id"
| "ngo_of (Reject ngo_id _ _) = Some ngo_id"
| "ngo_of (Work_completed ngo_id _ _) = Some ngo_id"
| "ngo_of (Work_not_done ngo_id _ _ _) = Some ngo_id"
| "ngo_of (Certificate_sent ngo_id _ _) = Some ngo_id"
| "ngo_of (Remove ngo_id _ _) = Some ngo_id"
| "ngo_of (Mark_closed ngo_id _) = Some ngo_id"
| "ngo_of (Confirm_delete ngo_id _ _) = Some ngo_id"
| "ngo_of (Update_task ngo_id _ _ _) = Some ngo_id"
| "ngo_of _ = None"

definition step :: "db \<Rightarrow> event \<Rightarrow> db" where
  "step s ev =
     (case ngo_of ev of
        None \<Rightarrow> volunteer_event ev s
      | Some ngo_id \<Rightarrow> render_tasks ngo_id (ngo_handler ev s))"

definition run :: "event list \<Rightarrow> db \<Rightarrow> db" where
  "run evs s = foldl step s evs"

section \<open>Well-formed databases\<close>

text \<open>
  What the storage guarantees of \<^verbatim>\<open>volunteer_acceptances\<close>: the primary key \<^verbatim>\<open>id\<close> is
  unique and was drawn from the \<^verbatim>\<open>SERIAL\<close> counter.
\<close>

definition acceptance_ids_ok :: "db \<Rightarrow> bool" where
  "acceptance_ids_ok s =
     (distinct (map va_id (volunteer_acceptances s)) \<and>
      list_all (\<lambda>va. va_id va \<le> acceptances_seq s) (volunteer_acceptances s))"

text \<open>The value of a row is 0 unless the row is completed and approved.\<close>

definition value_only_when_completed :: "acceptance \<Rightarrow> bool" where
  "value_only_when_completed va =
     (va_monetisation_value va = 0 \<or>
      (va_status va = Some Completed \<and> va_approval_status va = Some Approved))"

definition lifecycle_inv :: "db \<Rightarrow> bool" where
  "lifecycle_inv s =
     (acceptance_ids_ok s \<and> list_all value_only_when_completed (volunteer_acceptances s))"

text \<open>The table's \<^verbatim>\<open>UNIQUE(task_id, volunteer_id)\<close>.\<close>

definition pair_unique :: "db \<Rightarrow> bool" where
  "pair_unique s =
     distinct (map (\<lambda>va. (va_task_id va, va_volunteer_id va)) (volunteer_acceptances s))"
section \<open>A concrete scenario\<close>

text \<open>
  The scenario of the specification's section 8: one open task of organisation 1 for at most
  one volunteer, one day long, 4 hours a day at a wage rate of 300; two registered
  volunteers; nobody has applied yet.
\<close>

definition demo_task :: task where
  "demo_task =
     \<lparr>t_id = 1, t_ngo_id = 1, t_title = ''Beach cleanup'', t_location = Some ''Chennai'',
      t_address = Some ''Marina Beach'', t_date = None, t_start_date = Some 738000,
      t_end_date = Some 738000, t_hours = Some 4, t_status = Open, t_max_volunteers = Some 1,
      t_contact_email = Some ''ngo@example.org'', t_contact_phone = Some ''9999999999'',
      t_urgency = Some ''Low'', t_age_requirement = Some ''No restriction'',
      t_physical_requirements = Some '''', t_equipment_needed = Some '''', t_is_deleted = 0,
      t_wage_rate = Some 300\<rparr>"

definition demo_db :: db where
  "demo_db =
     \<lparr>tasks = [demo_task], volunteer_acceptances = [], notifications = [],
      volunteers = [\<lparr>v_id = 1, v_total_value_generated = 0\<rparr>,
                    \<lparr>v_id = 2, v_total_value_generated = 0\<rparr>],
      acceptances_seq = 0, notifications_seq = 0\<rparr>"

text \<open>
  The wording PostgreSQL, through psycopg2, gives the exception of a violated
  \<^verbatim>\<open>UNIQUE(task_id, volunteer_id)\<close>; the driver is not among the sources, and the other
  exceptions' wordings play no part below.
\<close>

definition postgres_exception_text :: "db_error \<Rightarrow> string" where
  "postgres_exception_text e =
     (case e of
        UniqueViolation \<Rightarrow>
          ''duplicate key value violates unique constraint '' @ [CHR 0x22] @
          ''volunteer_acceptances_task_id_volunteer_id_key'' @ [CHR 0x22]
      | ForeignKeyViolation \<Rightarrow> ''insert or update on table violates foreign key constraint''
      | OperationalError \<Rightarrow> ''server closed the connection unexpectedly''
      | TypeError \<Rightarrow> ''int() argument must be a string, a bytes-like object or a real number'')"

text \<open>Volunteer 1 has applied for the task and the organisation has rejected the application.\<close>

definition rejected_db :: db where
  "rejected_db =
     run [Apply 1 1 ''a@example.org'' ''9000000001'' ''I live nearby'', Reject 1 1 1] demo_db"

text \<open>
  Volunteer 1 has applied and been approved (the task has closed at capacity); and the edit
  form filled in with the task's stored values.
\<close>

definition approved_db :: db where
  "approved_db =
     run [Apply 1 1 ''a@example.org'' ''9000000001'' ''I live nearby'', Approve 1 1 1 True] demo_db"

definition demo_form :: edit_form where
  "demo_form =
     \<lparr>edit_title = ''Beach cleanup'', edit_desc = ''Collect litter'', edit_loc = ''Chennai'',
      edit_address = ''Marina Beach'', edit_start_date = Some 738000, edit_end_date = Some 738000,
      edit_hours = 4, edit_max_volunteers = 1, edit_contact_email = ''ngo@example.org'',
      edit_contact_phone = ''9999999999'', edit_urgency = ''Low'',
      edit_age_requirement = ''No restriction'', edit_physical = '''', edit_equipment = '''',
      edit_wage_rate = 300\<rparr>"

text \<open>
  A second task of the organisation, posted with the form's initial wage rate 0, beside the
  first.
\<close>

definition two_task_db :: db where
  "two_task_db =
     demo_db\<lparr>tasks := [demo_task, demo_task\<lparr>t_id := 2, t_title := ''Tree planting'',
                                             t_wage_rate := Some 0\<rparr>]\<rparr>"

section \<open>What every handler preserves\<close>

lemma execute_ok:
  "execute False stmt s = (case stmt s of Inl e \<Rightarrow> (s, Some e) | Inr s' \<Rightarrow> (s', None))"
  by (simp add: execute_def)

lemma lifecycle_inv_cong:
  "volunteer_acceptances s' = volunteer_acceptances s \<Longrightarrow> acceptances_seq s' = acceptances_seq s \<Longrightarrow>
   lifecycle_inv s' = lifecycle_inv s"
  by (simp add: lifecycle_inv_def acceptance_ids_ok_def)

lemma inv_update_task: "lifecycle_inv (fst (execute False (update_task tid f) s)) = lifecycle_inv s"
  by (rule lifecycle_inv_cong) (simp_all add: update_task_def execute_ok)

lemma inv_insert_notification:
  "lifecycle_inv (fst (execute False (insert_notification u m ty r) s)) = lifecycle_inv s"
  by (rule lifecycle_inv_cong) (simp_all add: insert_notification_def execute_ok)

lemma inv_update_volunteer_total_value:
  "lifecycle_inv (update_volunteer_total_value v s) = lifecycle_inv s"
  by (rule lifecycle_inv_cong) (simp_all add: update_volunteer_total_value_def)

lemma inv_delete:
  "lifecycle_inv s \<Longrightarrow> lifecycle_inv (fst (execute False (delete_acceptance aid) s))"
  by (auto simp: lifecycle_inv_def acceptance_ids_ok_def delete_acceptance_def distinct_map_filter
      list_all_iff execute_ok)

lemma inv_update_acceptance:
  assumes "lifecycle_inv s"
    and "\<And>va. va \<in> set (volunteer_acceptances s) \<Longrightarrow> va_id va = aid \<Longrightarrow>
           va_id (f va) = va_id va \<and> value_only_when_completed (f va)"
  shows "lifecycle_inv (fst (execute False (update_acceptance aid f) s))"
proof -
  have ids: "map va_id (map (\<lambda>va. if va_id va = aid then f va else va) (volunteer_acceptances s)) =
      map va_id (volunteer_acceptances s)"
    using assms(2) by (auto simp: comp_def)
  show ?thesis
    using assms ids
    by (auto simp: lifecycle_inv_def acceptance_ids_ok_def update_acceptance_def list_all_iff
        execute_ok simp del: map_map)
qed

lemma inv_insert:
  "lifecycle_inv s \<Longrightarrow> lifecycle_inv (fst (execute False (insert_acceptance t v d h e p n) s))"
  by (auto simp: lifecycle_inv_def acceptance_ids_ok_def insert_acceptance_def list_all_iff
      value_only_when_completed_def execute_ok)

lemma same_id_same_row:
  "lifecycle_inv s \<Longrightarrow> va \<in> set (volunteer_acceptances s) \<Longrightarrow> vol \<in> set (volunteer_acceptances s) \<Longrightarrow>
   va_id va = va_id vol \<Longrightarrow> va = vol"
  by (auto simp: lifecycle_inv_def acceptance_ids_ok_def distinct_map inj_on_def)

lemma shown_SomeD: "shown vols aid = Some vol \<Longrightarrow> vol \<in> set vols \<and> va_id vol = aid"
  by (auto simp: shown_def find_Some_iff)

lemma inv_row: "lifecycle_inv s \<Longrightarrow> va \<in> set (volunteer_acceptances s) \<Longrightarrow> value_only_when_completed va"
  by (simp add: lifecycle_inv_def list_all_iff)

lemma inv_approve: "lifecycle_inv s \<Longrightarrow> lifecycle_inv (approve allowed vol s)"
  unfolding approve_def
  by (auto intro!: inv_update_acceptance dest: inv_row simp: value_only_when_completed_def)

lemma inv_reject:
  assumes "lifecycle_inv s" "vol \<in> set (pending_vols s tid)"
  shows "lifecycle_inv (reject vol s)"
  unfolding reject_def
proof (rule inv_update_acceptance[OF assms(1)])
  fix va assume va: "va \<in> set (volunteer_acceptances s)" "va_id va = va_id vol"
  from assms(2) have vol: "vol \<in> set (volunteer_acceptances s)" "va_approval_status vol = Some Pending"
    by (auto simp: pending_vols_def)
  from same_id_same_row[OF assms(1) va(1) vol(1) va(2)] have "va = vol" .
  with inv_row[OF assms(1) vol(1)] vol(2)
  show "va_id (va\<lparr>va_approval_status := Some Rejected\<rparr>) = va_id va \<and>
        value_only_when_completed (va\<lparr>va_approval_status := Some Rejected\<rparr>)"
    by (auto simp: value_only_when_completed_def)
qed

lemma inv_mark_completed: "lifecycle_inv s \<Longrightarrow> lifecycle_inv (mark_completed vol s)"
  unfolding mark_completed_def
  by (auto intro!: inv_update_acceptance dest: inv_row simp: value_only_when_completed_def)

lemma inv_work_completed:
  assumes "lifecycle_inv s" "vol \<in> set (approved_vols s tid)"
  shows "lifecycle_inv (work_completed t vol s)"
proof -
  from assms(2) have vol: "vol \<in> set (volunteer_acceptances s)" "va_approval_status vol = Some Approved"
    by (auto simp: approved_vols_def)
  have upd: "lifecycle_inv (fst (execute False (update_acceptance (va_id vol)
      (\<lambda>va. va\<lparr>va_status := Some Completed, va_completion_note := None,
                va_monetisation_value := x\<rparr>)) s))" for x
  proof (rule inv_update_acceptance[OF assms(1)])
    fix va assume va: "va \<in> set (volunteer_acceptances s)" "va_id va = va_id vol"
    from same_id_same_row[OF assms(1) va(1) vol(1) va(2)] have "va = vol" .
    with vol(2)
    show "va_id (va\<lparr>va_status := Some Completed, va_completion_note := None,
                va_monetisation_value := x\<rparr>) = va_id va \<and>
        value_only_when_completed (va\<lparr>va_status := Some Completed, va_completion_note := None,
                va_monetisation_value := x\<rparr>)"
      by (auto simp: value_only_when_completed_def)
  qed
  show ?thesis
    unfolding work_completed_def
    using assms(1) upd
    by (auto simp: Let_def inv_update_volunteer_total_value inv_mark_completed
        split: option.splits sum.splits)
qed

lemma inv_work_not_done: "lifecycle_inv s \<Longrightarrow> lifecycle_inv (work_not_done vol issue s)"
  unfolding work_not_done_def
  by (auto simp: inv_update_volunteer_total_value value_only_when_completed_def
      intro!: inv_update_acceptance)

lemma inv_certificate_sent: "lifecycle_inv s \<Longrightarrow> lifecycle_inv (certificate_sent t vol s)"
  unfolding certificate_sent_def Let_def
  by (auto simp: inv_insert_notification value_only_when_completed_def
      intro!: inv_update_acceptance dest: inv_row)

lemma inv_confirm_remove: "lifecycle_inv s \<Longrightarrow> lifecycle_inv (confirm_remove aid tid s)"
  unfolding confirm_remove_def Let_def
  by (auto simp: inv_update_task inv_delete split: option.splits)

lemma inv_mark_closed: "lifecycle_inv s \<Longrightarrow> lifecycle_inv (mark_closed t s)"
  by (simp add: mark_closed_def inv_update_task)

lemma inv_notify_deleted:
  "lifecycle_inv s \<Longrightarrow> lifecycle_inv (fst (notify_deleted fails k m tid vs s))"
proof (induction vs arbitrary: s k)
  case Nil then show ?case by simp
next
  case (Cons v vs)
  show ?case
  proof (cases "fails k")
    case True
    then show ?thesis using Cons.prems by (simp add: execute_def)
  next
    case False
    have "lifecycle_inv (fst (execute False (insert_notification v m ''task_deleted'' tid) s))"
      using Cons.prems by (simp only: inv_insert_notification)
    from Cons.IH[OF this, of "Suc k"] False show ?thesis
      by (simp add: insert_notification_def execute_ok)
  qed
qed

lemma inv_execute_update_task: "lifecycle_inv s \<Longrightarrow> lifecycle_inv (fst (execute b (update_task tid f) s))"
  by (cases b) (simp_all add: inv_update_task, simp add: execute_def)

lemma inv_confirm_delete: "lifecycle_inv s \<Longrightarrow> lifecycle_inv (fst (confirm_delete fails t r s))"
proof -
  assume inv: "lifecycle_inv s"
  show ?thesis
  proof (cases "strip r = []")
    case True
    then show ?thesis using inv by (simp add: confirm_delete_def)
  next
    case False
    let ?vs = "affected_volunteers s (t_id t)"
    let ?m = "deleted_message t r"
    obtain s1 e where nd: "notify_deleted fails 0 ?m (t_id t) ?vs s = (s1, e)"
      by (cases "notify_deleted fails 0 ?m (t_id t) ?vs s")
    have "lifecycle_inv s1" using inv_notify_deleted[OF inv, of fails 0 ?m "t_id t" ?vs] nd by simp
    then show ?thesis
      using False nd inv_execute_update_task[of s1]
      by (cases e) (simp_all add: confirm_delete_def)
  qed
qed

lemma inv_notify_updated: "lifecycle_inv s \<Longrightarrow> lifecycle_inv (notify_updated m tid vs s)"
proof (induction vs arbitrary: s)
  case Nil then show ?case by simp
next
  case (Cons v vs)
  show ?case using Cons.IH[of "fst (execute False (insert_notification v m ''task_updated'' tid) s)"] Cons.prems
    by (simp add: inv_insert_notification)
qed

lemma inv_submit_update_task: "lifecycle_inv s \<Longrightarrow> lifecycle_inv (submit_update_task allowed t f s)"
  unfolding submit_update_task_def Let_def
  by (auto simp: inv_update_task inv_notify_updated split: option.splits)

lemma inv_render_tasks: "lifecycle_inv s \<Longrightarrow> lifecycle_inv (render_tasks n s)"
proof -
  have "lifecycle_inv s' \<Longrightarrow> lifecycle_inv (foldl (\<lambda>s' t. if P t
                    then fst (execute False (update_task (t_id t) g) s')
                    else s') s' ts)" for P g s' ts
    by (induction ts arbitrary: s') (simp_all add: inv_update_task)
  then show "lifecycle_inv s \<Longrightarrow> lifecycle_inv (render_tasks n s)"
    unfolding render_tasks_def by blast
qed

lemma inv_withdraw: "lifecycle_inv s \<Longrightarrow> lifecycle_inv (withdraw t a s)"
  unfolding withdraw_def Let_def
  by (auto simp: inv_update_task inv_delete split: option.splits)

lemma inv_withdraw_from_task: "lifecycle_inv s \<Longrightarrow> lifecycle_inv (withdraw_from_task a s)"
  unfolding withdraw_from_task_def Let_def
  by (auto simp: inv_update_task inv_delete split: option.splits)

lemma inv_insert_pair:
  "lifecycle_inv s \<Longrightarrow> execute False (insert_acceptance t v d h e p n) s = (s', r) \<Longrightarrow>
   lifecycle_inv s'"
  using inv_insert[of s t v d h e p n] by simp

lemma inv_apply_for_task: "lifecycle_inv s \<Longrightarrow> lifecycle_inv (fst (apply_for_task t v e p n s))"
  unfolding apply_for_task_def
  by (auto split: option.splits prod.splits dest: inv_insert_pair)

lemma inv_volunteer_event: "lifecycle_inv s \<Longrightarrow> lifecycle_inv (volunteer_event ev s)"
  by (cases ev)
     (auto simp: inv_apply_for_task inv_withdraw inv_withdraw_from_task inv_delete
        remove_from_my_list_def withdraw_application_def
        split: option.splits browse_branch.splits)

lemma inv_ngo_handler: "lifecycle_inv s \<Longrightarrow> lifecycle_inv (ngo_handler ev s)"
  by (cases ev)
     (auto simp: inv_approve inv_mark_completed inv_work_not_done inv_certificate_sent
        inv_confirm_remove inv_mark_closed inv_confirm_delete inv_submit_update_task
        split: option.splits
        dest!: shown_SomeD intro: inv_reject inv_work_completed)

lemma inv_step: "lifecycle_inv s \<Longrightarrow> lifecycle_inv (step s ev)"
  by (auto simp: step_def inv_volunteer_event inv_ngo_handler inv_render_tasks split: option.splits)

lemma inv_run: "lifecycle_inv s \<Longrightarrow> lifecycle_inv (run evs s)"
  unfolding run_def by (induction evs arbitrary: s) (simp_all add: inv_step)

lemma find_SomeD: "find P xs = Some x \<Longrightarrow> x \<in> set xs \<and> P x"
  by (induction xs) (auto split: if_splits)

lemma listed_SomeD: "listed ts task_id = Some t \<Longrightarrow> t \<in> set ts \<and> t_id t = task_id"
  by (auto simp: listed_def dest: find_SomeD)

lemma strip_Nil: "strip [] = []" by (simp add: strip_def)

lemma distinct_map_filter_single:
  "distinct (map f xs) \<Longrightarrow> filter (\<lambda>x. f x = k) xs = a # rest \<Longrightarrow> rest = []"
proof (induction xs arbitrary: a rest)
  case Nil then show ?case by simp
next
  case (Cons x xs)
  show ?case
  proof (cases "f x = k")
    case True
    with Cons.prems have "filter (\<lambda>x. f x = k) xs = rest" "k \<notin> f ` set xs" by auto
    then show ?thesis by (auto simp: filter_empty_conv)
  next
    case False
    with Cons show ?thesis by auto
  qed
qed

lemma volunteer_count_delete_le:
  "volunteer_count (fst (execute False (delete_acceptance aid) s)) tid \<le> volunteer_count s tid"
proof -
  have "length (filter P (filter Q xs)) \<le> length (filter P xs)" for P Q and xs :: "acceptance list"
    by (induction xs) auto
  then show ?thesis by (simp add: volunteer_count_def execute_def delete_acceptance_def)
qed

lemma update_task_frame:
  "notifications (fst (execute False (update_task tid g) s)) = notifications s"
  "notifications_seq (fst (execute False (update_task tid g) s)) = notifications_seq s"
  "volunteer_acceptances (fst (execute False (update_task tid g) s)) = volunteer_acceptances s"
  by (simp_all add: execute_def update_task_def)

lemma approved_vols_update_task:
  "approved_vols (fst (execute False (update_task tid g) s)) t = approved_vols s t"
  by (simp add: approved_vols_def update_task_frame)

lemma notifications_insert_notification:
  "notifications (fst (execute False (insert_notification u m ty r) s)) =
     notifications s @
       [\<lparr>n_id = notifications_seq s + 1, n_user_type = ''volunteer'', n_user_id = u,
         n_message = m, n_notification_type = ty, n_related_id = r, n_is_read = 0\<rparr>]"
  by (simp add: execute_def insert_notification_def)

text \<open>
  Claim C5. Start from a database in which nobody has applied yet and let any sequence of
  button presses happen (apply, approve, reject, the withdrawals, removal, complete, not
  done, certificate, close, delete, edit, page loads), each on the page as drawn from the
  current database. In the database reached, every engagement with a non-zero value is
  completed and approved; so every engagement that is not completed, or not approved, has
  value 0.
\<close>

theorem value_nonzero_only_completed_approved:
  assumes "volunteer_acceptances s0 = []"
  shows "\<forall>va \<in> set (volunteer_acceptances (run evs s0)).
           va_monetisation_value va \<noteq> 0 \<longrightarrow>
             va_status va = Some Completed \<and> va_approval_status va = Some Approved"
proof -
  have "lifecycle_inv s0"
    using assms by (simp add: lifecycle_inv_def acceptance_ids_ok_def)
  then have "lifecycle_inv (run evs s0)" by (rule inv_run)
  then show ?thesis
    by (auto simp: lifecycle_inv_def list_all_iff value_only_when_completed_def)
qed

theorem value_nonzero_only_completed_approved_witness:
  "volunteer_acceptances demo_db = [] \<and>
   map (\<lambda>va. (va_volunteer_id va, va_monetisation_value va, va_status va, va_approval_status va))
     (volunteer_acceptances
        (run [Apply 1 1 ''a@example.org'' ''9000000001'' ''I live nearby'',
              Apply 2 1 ''b@example.org'' ''9000000002'' ''I have done this before'',
              Approve 1 1 1 True,
              Work_completed 1 1 1,
              Reject 1 1 2] demo_db)) =
     [(1, 1200, Some Completed, Some Approved), (2, 0, Some Accepted, Some Rejected)]"
proof -
  have empty: "volunteer_acceptances demo_db = []"
    by (simp add: demo_db_def)
  have rows: "map (\<lambda>va. (va_volunteer_id va, va_monetisation_value va, va_status va, va_approval_status va))
     (volunteer_acceptances
        (run [Apply 1 1 ''a@example.org'' ''9000000001'' ''I live nearby'',
              Apply 2 1 ''b@example.org'' ''9000000002'' ''I have done this before'',
              Approve 1 1 1 True,
              Work_completed 1 1 1,
              Reject 1 1 2] demo_db)) =
     [(1, 1200, Some Completed, Some Approved), (2, 0, Some Accepted, Some Rejected)]"
    by code_simp
  from value_nonzero_only_completed_approved[OF empty] empty rows show ?thesis
    by simp
qed
section \<open>The rate limiter keeps a trailing window\<close>

lemma RATE_LIMITS_window_pos: "map_of RATE_LIMITS a = Some (m, w) \<Longrightarrow> 0 < w"
  by (auto simp: RATE_LIMITS_def split: if_splits)

lemma filter_filter_cutoff:
  fixes c d :: int
  assumes "c \<le> d"
  shows "filter (\<lambda>t. t > d) (filter (\<lambda>t. t > c) xs) = filter (\<lambda>t. t > d) xs"
  using assms by (induction xs) auto

lemma check_rate_limit_log:
  "check_rate_limit ss now now' u a m w = (ok, ss') \<Longrightarrow>
     ok = (int (length (filter (\<lambda>t. t > now - timedelta_minutes w) (session_log ss u a))) < m) \<and>
     session_log ss' u a =
       (if ok then filter (\<lambda>t. t > now - timedelta_minutes w) (session_log ss u a) @ [now']
        else filter (\<lambda>t. t > now - timedelta_minutes w) (session_log ss u a))"
  by (auto simp: check_rate_limit_def session_log_def Let_def split: option.splits if_splits)

text \<open>
  The stored list is the history cut at some instant \<open>c\<close> that already lies outside every
  later window; cutting again at the new window's start gives the same list as cutting the
  whole history there.
\<close>

lemma run_calls_window:
  assumes lim: "map_of RATE_LIMITS a = Some (m, w)"
  shows "clock_ok prev calls \<Longrightarrow> session_log ss u a = filter (\<lambda>t. t > c) hist \<Longrightarrow>
     c \<le> prev - timedelta_minutes w \<Longrightarrow>
     fst (run_calls ss u a calls) = window_limiter m w hist calls"
proof (induction calls arbitrary: ss hist c prev)
  case Nil
  then show ?case by simp
next
  case (Cons call calls)
  obtain now now' where call: "call = (now, now')" by (cases call)
  from Cons.prems(1) call have clk: "prev \<le> now" "now \<le> now'" "clock_ok now' calls" by auto
  have wpos: "0 < timedelta_minutes w"
    using RATE_LIMITS_window_pos[OF lim] by (simp add: timedelta_minutes_def)
  let ?d = "now - timedelta_minutes w"
  obtain ok ss' where step: "check_rate_limit ss now now' u a m w = (ok, ss')"
    by (cases "check_rate_limit ss now now' u a m w")
  have cd: "c \<le> ?d" using Cons.prems(3) clk(1) by simp
  have kept: "filter (\<lambda>t. t > ?d) (session_log ss u a) = filter (\<lambda>t. t > ?d) hist"
    using Cons.prems(2) filter_filter_cutoff[OF cd] by simp
  from check_rate_limit_log[OF step] kept
  have ok: "ok = (int (length (filter (\<lambda>t. t > ?d) hist)) < m)"
    and log': "session_log ss' u a =
      (if ok then filter (\<lambda>t. t > ?d) hist @ [now'] else filter (\<lambda>t. t > ?d) hist)"
    by simp_all
  have inv': "session_log ss' u a = filter (\<lambda>t. t > ?d) (if ok then hist @ [now'] else hist)"
    using log' wpos clk(2) by auto
  have d': "?d \<le> now' - timedelta_minutes w" using clk(2) by simp
  have rest: "fst (run_calls ss' u a calls) =
      window_limiter m w (if ok then hist @ [now'] else hist) calls"
    by (rule Cons.IH[OF clk(3) inv' d'])
  show ?case
    using rest ok step lim
    by (cases "run_calls ss' u a calls") (auto simp: call check_action_rate_limit_def)
qed

lemma filter_gt_below: "\<forall>x\<in>set xs. (c::int) < x \<Longrightarrow> filter (\<lambda>t. t > c) xs = xs"
  by (induction xs) auto

lemma exists_below: "\<exists>c::int. c \<le> b \<and> (\<forall>x\<in>set xs. c < x)"
proof (induction xs)
  case Nil
  show ?case by auto
next
  case (Cons x xs)
  then obtain c where "c \<le> b" "\<forall>x\<in>set xs. c < x" by auto
  then have "min c (x - 1) \<le> b \<and> (\<forall>y\<in>set (x # xs). min c (x - 1) < y)" by auto
  then show ?case by blast
qed

lemma run_calls_unlimited:
  "map_of RATE_LIMITS a = None \<Longrightarrow> run_calls ss u a calls = (replicate (length calls) True, ss)"
  by (induction calls arbitrary: ss) (auto simp: check_action_rate_limit_def)

text \<open>
  Claim C10. In one session, with a clock that does not run backwards, the flags that
  \<open>check_action_rate_limit\<close> returns to successive calls for one user and action are those of
  the trailing-window limiter over the session's record of allowed calls: a call is allowed,
  and recorded, exactly when fewer than \<open>max_requests\<close> allowed calls lie within the last
  \<open>window_minutes\<close> minutes, and refused otherwise; an action without a predefined limit is
  always allowed. The limit of \<^verbatim>\<open>create_task\<close> is 10 calls per 5 minutes. The only state
  read or written is the session's own dictionary.
\<close>

theorem rate_limit_trailing_window:
  assumes "clock_ok prev calls"
  shows "fst (run_calls ss user_id action calls) =
           (case map_of RATE_LIMITS action of
              None \<Rightarrow> replicate (length calls) True
            | Some (max_requests, window_minutes) \<Rightarrow>
                window_limiter max_requests window_minutes (session_log ss user_id action) calls)
         \<and> map_of RATE_LIMITS ''create_task'' = Some (10, 5)"
proof (cases "map_of RATE_LIMITS action")
  case None
  then show ?thesis by (simp add: run_calls_unlimited) (simp add: RATE_LIMITS_def)
next
  case (Some mw)
  obtain m w where mw: "mw = (m, w)" by (cases mw)
  obtain c where c: "c \<le> prev - timedelta_minutes w"
      "\<forall>x\<in>set (session_log ss user_id action). c < x"
    using exists_below by blast
  have "session_log ss user_id action = filter (\<lambda>t. t > c) (session_log ss user_id action)"
    using filter_gt_below[OF c(2)] by simp
  from run_calls_window[OF _ assms this c(1)] Some mw show ?thesis
    by (simp add: RATE_LIMITS_def)
qed

theorem rate_limit_trailing_window_witness:
  "clock_ok 0 [(0, 1), (2, 3), (4, 5), (6, 7), (8, 9), (10, 11), (600000010, 600000011)] \<and>
   fst (run_calls Map.empty 7 ''update_profile''
          [(0, 1), (2, 3), (4, 5), (6, 7), (8, 9), (10, 11), (600000010, 600000011)]) =
     [True, True, True, True, True, False, True]"
  using rate_limit_trailing_window
    [of 0 "[(0, 1), (2, 3), (4, 5), (6, 7), (8, 9), (10, 11), (600000010, 600000011)]"
        Map.empty 7 "''update_profile''"]
  by (simp add: RATE_LIMITS_def session_log_def timedelta_minutes_def)
section \<open>Duration in days\<close>

text \<open>
  Claim C7. For two dates with \<open>end_date \<ge> start_date\<close> the duration is the inclusive
  number of days, an integer of at least 1; in particular a day to itself is 1 day; for
  \<open>end_date < start_date\<close> the result is \<open>InvalidRangeError\<close>.
\<close>

theorem duration_days_inclusive:
  "(start_date \<le> end_date \<longrightarrow>
      (\<exists>n. calculate_duration_days start_date end_date = Inr n \<and> 1 \<le> n \<and>
           n = end_date - start_date + 1)) \<and>
   calculate_duration_days d d = Inr 1 \<and>
   (end_date < start_date \<longrightarrow>
      calculate_duration_days start_date end_date = Inl InvalidRangeError)"
  by (simp add: calculate_duration_days_def)

theorem duration_days_inclusive_witness:
  "calculate_duration_days 738000 738004 = Inr 5 \<and>
   calculate_duration_days 738000 738000 = Inr 1 \<and>
   calculate_duration_days 738005 738000 = Inl InvalidRangeError"
proof -
  have "(738000::int) \<le> 738004" and "(738000::int) < 738005" by simp_all
  with duration_days_inclusive[of 738000 738004 738000]
       duration_days_inclusive[of 738005 738000 738000]
  show ?thesis by auto
qed
section \<open>Capacity\<close>

text \<open>
  Claim C1, evaluated on the scenario. Both volunteers apply while the only slot is free;
  the organisation approves the first (the next drawing of its page closes the task) and
  then the second, whose "Approve" button is still shown: the approve handler takes no
  count. The approved count is then 2 for a task whose maximum is 1.
\<close>

theorem approve_exceeds_max_volunteers:
  "(let s = run [Apply 1 1 ''a@example.org'' ''9000000001'' ''I live nearby'',
                 Apply 2 1 ''b@example.org'' ''9000000002'' ''I have done this before'',
                 Approve 1 1 1 True,
                 Approve 1 1 2 True] demo_db
    in volunteer_count s 1 = 2 \<and> map t_max_volunteers (tasks s) = [Some 1])"
  by code_simp

text \<open>
  Claim C2, evaluated on the scenario. Volunteer 2 applies, volunteer 1 applies and is
  approved, and the task closes at capacity. When volunteer 1 then withdraws on the accepted
  tab, the approved count drops to 0, below the maximum 1, but the task stays closed: the
  count taken after the deletion includes the pending application of volunteer 2. The
  organisation's "Remove" of the same engagement, whose count has the approval condition,
  reopens the task.
\<close>

theorem withdraw_from_task_keeps_closed:
  "(let s = run [Apply 2 1 ''b@example.org'' ''9000000002'' ''I have done this before'',
                 Apply 1 1 ''a@example.org'' ''9000000001'' ''I live nearby'',
                 Approve 1 1 2 True] demo_db;
        s' = step s (Withdraw_from_task 1 2)
    in map t_status (tasks s) = [Closed] \<and> volunteer_count s 1 = 1 \<and>
       volunteer_count s' 1 = 0 \<and> map t_max_volunteers (tasks s') = [Some 1] \<and>
       map t_status (tasks s') = [Closed] \<and>
       map t_status (tasks (step s (Remove 1 1 2))) = [Open])"
  by code_simp

section \<open>Applying twice\<close>

lemma execute_insert_duplicate:
  "list_ex (\<lambda>va. va_task_id va = task_id \<and> va_volunteer_id va = volunteer_id)
     (volunteer_acceptances s) \<Longrightarrow>
   execute False (insert_acceptance task_id volunteer_id d h e p n) s = (s, Some UniqueViolation)"
  by (simp add: execute_def insert_acceptance_def)

text \<open>
  Whatever the database, a second submission of the form for the same task and volunteer
  inserts nothing: the first leaves a row for the pair, and the unique constraint then
  refuses the insert and the database stays as the first left it.
\<close>

lemma apply_twice_second_refused:
  assumes "apply_for_task t volunteer_id e p n s = (s1, Submitted)"
  shows "apply_for_task t volunteer_id e' p' n' s1 = (s1, Failed UniqueViolation) \<or>
         (\<exists>r. r \<in> {Notes_required, Email_required, Phone_required} \<and>
              apply_for_task t volunteer_id e' p' n' s1 = (s1, r))"
proof -
  from assms obtain h where h: "t_hours t = Some h"
    by (auto simp: apply_for_task_def split: if_splits option.splits)
  from assms h have "list_ex (\<lambda>va. va_task_id va = t_id t \<and> va_volunteer_id va = volunteer_id)
      (volunteer_acceptances s1)"
    by (auto simp: apply_for_task_def execute_def insert_acceptance_def
        split: if_splits option.splits prod.splits sum.splits)
  from execute_insert_duplicate[OF this] h show ?thesis
    by (auto simp: apply_for_task_def)
qed

text \<open>
  Claim C3, evaluated on the scenario. Volunteer 1 submits the application form for the
  task twice. The first submission creates the engagement; the second is refused by the
  unique constraint and the table still holds one row for the pair. With PostgreSQL's
  wording of that exception, which has no \<^verbatim>\<open>UNIQUE constraint\<close> in it, the page shows the
  general failure message and not "You have already applied for this task.".
\<close>

theorem duplicate_apply_message:
  "(case apply_for_task demo_task 1 ''a@example.org'' ''9000000001'' ''I live nearby'' demo_db of
      (s1, first) \<Rightarrow>
        (case apply_for_task demo_task 1 ''a@example.org'' ''9000000001'' ''I live nearby'' s1 of
           (s2, second) \<Rightarrow>
             first = Submitted \<and> second = Failed UniqueViolation \<and> s2 = s1 \<and>
             map (\<lambda>va. (va_task_id va, va_volunteer_id va)) (volunteer_acceptances s2) = [(1, 1)] \<and>
             apply_message postgres_exception_text second =
               ''Failed to submit application: duplicate key value violates unique constraint '' @
               [CHR 0x22] @ ''volunteer_acceptances_task_id_volunteer_id_key'' @ [CHR 0x22] \<and>
             apply_message postgres_exception_text second \<noteq>
               ''You have already applied for this task.''))"
  by code_simp
section \<open>A rejected volunteer can apply again\<close>

text \<open>
  Claim C9. A volunteer whose application for a listed task was rejected sees the rejection
  notice with "Remove from My List". Pressing it deletes the rejected record; the task not
  being closed nor full, the page then shows the application form, and submitting it with
  the three inputs filled creates a fresh pending application, the only record of the pair.
  (The pair is unique in the table, the volunteer is registered and the task has hours.)
\<close>

theorem rejected_can_remove_and_reapply:
  assumes listed: "listed (browse_tasks s) task_id = Some t"
    and rejected: "browse_branch s t volunteer_id = Rejected_notice a"
    and room: "\<not> is_full s t"
    and unique: "pair_unique s"
    and registered: "list_ex (\<lambda>v. v_id v = volunteer_id) (volunteers s)"
    and hours: "t_hours t = Some h"
    and inputs: "strip contact_email \<noteq> []" "strip contact_phone \<noteq> []" "strip additional_notes \<noteq> []"
  shows "(let s1 = volunteer_event (Remove_from_my_list volunteer_id task_id) s;
              s2 = volunteer_event (Apply volunteer_id task_id contact_email contact_phone additional_notes) s1
          in already_accepted s1 task_id volunteer_id = None \<and>
             browse_branch s1 t volunteer_id = Apply_form \<and>
             filter (\<lambda>va. va_task_id va = task_id \<and> va_volunteer_id va = volunteer_id)
               (volunteer_acceptances s2) =
               [\<lparr>va_id = acceptances_seq s + 1, va_task_id = task_id, va_volunteer_id = volunteer_id,
                 va_availability_date = (case t_start_date t of Some d \<Rightarrow> Some d | None \<Rightarrow> t_date t),
                 va_hours_committed = Some h, va_contact_email = Some contact_email,
                 va_contact_phone = Some contact_phone, va_additional_notes = Some additional_notes,
                 va_approval_status = Some Pending, va_status = Some Accepted,
                 va_completion_note = None, va_certificate_pushed = 0, va_monetisation_value = 0\<rparr>])"
proof -
  let ?pair = "\<lambda>va. va_task_id va = task_id \<and> va_volunteer_id va = volunteer_id"
  from listed have tid: "t_id t = task_id" and tin: "t \<in> set (tasks s)" and live: "t_is_deleted t = 0"
    using listed_SomeD[OF listed] by (auto simp: browse_tasks_def)
  from rejected have opn: "t_status t \<noteq> Closed"
    and acc: "already_accepted s task_id volunteer_id = Some a"
    by (auto simp: browse_branch_def tid split: if_splits option.splits approval.splits)
  from acc obtain rest where rows: "filter ?pair (volunteer_acceptances s) = a # rest"
    by (auto simp: already_accepted_def fetchone_def split: list.splits)
  have "filter (\<lambda>va. (va_task_id va, va_volunteer_id va) = (task_id, volunteer_id))
          (volunteer_acceptances s) = a # rest"
    using rows by simp
  from distinct_map_filter_single[OF unique[unfolded pair_unique_def] this]
  have rest: "rest = []" .
  define s1 where "s1 = volunteer_event (Remove_from_my_list volunteer_id task_id) s"
  have s1: "s1 = fst (execute False (delete_acceptance (va_id a)) s)"
    using listed rejected by (simp add: s1_def remove_from_my_list_def)
  have acc1: "volunteer_acceptances s1 = filter (\<lambda>va. va_id va \<noteq> va_id a) (volunteer_acceptances s)"
    and tasks1: "tasks s1 = tasks s" and vols1: "volunteers s1 = volunteers s"
    and seq1: "acceptances_seq s1 = acceptances_seq s"
    by (simp_all add: s1 execute_def delete_acceptance_def)
  have "filter ?pair (volunteer_acceptances s1) = filter (\<lambda>va. va_id va \<noteq> va_id a) (filter ?pair (volunteer_acceptances s))"
    by (simp add: acc1 conj_commute)
  then have none: "filter ?pair (volunteer_acceptances s1) = []"
    using rows rest by simp
  then have no_row: "already_accepted s1 task_id volunteer_id = None"
    by (simp add: already_accepted_def fetchone_def)
  have "volunteer_count s1 (t_id t) \<le> volunteer_count s (t_id t)"
    unfolding s1 by (rule volunteer_count_delete_le)
  with room have room1: "\<not> is_full s1 t"
    by (auto simp: is_full_def split: option.splits)
  have form: "browse_branch s1 t volunteer_id = Apply_form"
    using opn no_row room1 by (simp add: browse_branch_def tid)
  have listed1: "listed (browse_tasks s1) task_id = Some t"
    using listed by (simp add: browse_tasks_def tasks1)
  have ne: "contact_email \<noteq> []" "contact_phone \<noteq> []" "additional_notes \<noteq> []"
    using inputs strip_Nil by auto
  have notex: "\<not> list_ex ?pair (volunteer_acceptances s1)"
    using none by (simp add: list_ex_iff filter_empty_conv)
  have tex: "list_ex (\<lambda>x. t_id x = task_id) (tasks s1)"
    using tin tid by (auto simp: list_ex_iff tasks1)
  have applied: "volunteer_event (Apply volunteer_id task_id contact_email contact_phone additional_notes) s1 =
      s1\<lparr>volunteer_acceptances := volunteer_acceptances s1 @
                  [\<lparr>va_id = acceptances_seq s + 1, va_task_id = task_id, va_volunteer_id = volunteer_id,
                 va_availability_date = (case t_start_date t of Some d \<Rightarrow> Some d | None \<Rightarrow> t_date t),
                 va_hours_committed = Some h, va_contact_email = Some contact_email,
                 va_contact_phone = Some contact_phone, va_additional_notes = Some additional_notes,
                 va_approval_status = Some Pending, va_status = Some Accepted,
                 va_completion_note = None, va_certificate_pushed = 0, va_monetisation_value = 0\<rparr>],
                acceptances_seq := acceptances_seq s + 1\<rparr>"
    using listed1 form inputs ne hours notex tex registered
    by (simp add: apply_for_task_def execute_def insert_acceptance_def tid vols1 seq1)
  show ?thesis
    unfolding Let_def s1_def[symmetric] applied
    using no_row form none by simp
qed

theorem rejected_can_remove_and_reapply_witness:
  "browse_branch rejected_db demo_task 1 =
     Rejected_notice
       \<lparr>va_id = 1, va_task_id = 1, va_volunteer_id = 1, va_availability_date = Some 738000,
        va_hours_committed = Some 4, va_contact_email = Some ''a@example.org'',
        va_contact_phone = Some ''9000000001'', va_additional_notes = Some ''I live nearby'',
        va_approval_status = Some Rejected, va_status = Some Accepted,
        va_completion_note = None, va_certificate_pushed = 0, va_monetisation_value = 0\<rparr> \<and>
   map (\<lambda>va. (va_id va, va_approval_status va, va_status va, va_additional_notes va))
     (filter (\<lambda>va. va_task_id va = 1 \<and> va_volunteer_id va = 1)
        (volunteer_acceptances
           (volunteer_event (Apply 1 1 ''a@example.org'' ''9000000001'' ''Please reconsider'')
              (volunteer_event (Remove_from_my_list 1 1) rejected_db)))) =
     [(2, Some Pending, Some Accepted, Some ''Please reconsider'')]"
proof -
  have h1: "listed (browse_tasks rejected_db) 1 = Some demo_task" by code_simp
  have h2: "browse_branch rejected_db demo_task 1 =
     Rejected_notice
       \<lparr>va_id = 1, va_task_id = 1, va_volunteer_id = 1, va_availability_date = Some 738000,
        va_hours_committed = Some 4, va_contact_email = Some ''a@example.org'',
        va_contact_phone = Some ''9000000001'', va_additional_notes = Some ''I live nearby'',
        va_approval_status = Some Rejected, va_status = Some Accepted,
        va_completion_note = None, va_certificate_pushed = 0, va_monetisation_value = 0\<rparr>"
    by code_simp
  have h3: "\<not> is_full rejected_db demo_task" by code_simp
  have h4: "pair_unique rejected_db" by code_simp
  have h5: "list_ex (\<lambda>v. v_id v = 1) (volunteers rejected_db)" by code_simp
  have h6: "t_hours demo_task = Some 4" by (simp add: demo_task_def)
  have h7: "strip ''a@example.org'' \<noteq> []" "strip ''9000000001'' \<noteq> []"
    "strip ''Please reconsider'' \<noteq> []" by code_simp+
  have seq: "acceptances_seq rejected_db = 1" by code_simp
  from rejected_can_remove_and_reapply[OF h1 h2 h3 h4 h5 h6 h7] seq h2
  show ?thesis by (simp add: Let_def)
qed
section \<open>Editing a start date notifies the approved volunteer\<close>

lemma field_name_start_date: "field_name ''start_date'' = ''Start date''"
  by code_simp

lemma critical_changes_start:
  "changed_date (t_start_date t) sd \<Longrightarrow>
   \<exists>rest. critical_changes t f sd ed = ''Start date'' # rest"
  by (simp add: critical_changes_def field_name_start_date split del: if_split)

lemma critical_changes_none:
  assumes "t_start_date t = Some sd" "t_end_date t = Some ed" "t_hours t = Some (edit_hours f)"
    "t_location t = Some (edit_loc f)" "t_address t = Some (edit_address f)"
    "t_contact_email t = Some (edit_contact_email f)" "t_contact_phone t = Some (edit_contact_phone f)"
    "t_urgency t = Some (edit_urgency f)" "t_physical_requirements t = Some (edit_physical f)"
    "t_age_requirement t = Some (edit_age_requirement f)" "t_equipment_needed t = Some (edit_equipment f)"
  shows "critical_changes t f sd ed = []"
  using assms
  by (simp add: critical_changes_def changed_date_def changed_hours_def changed_text_def py_str_def)

lemma join_Cons_sublist: "sublist x (join sep (x # xs))"
  by (cases xs) (auto simp: sublist_def intro: exI[of _ "[]"])

lemma updated_message_names_first: "sublist x (updated_message title (x # xs))"
proof -
  have "sublist x (join '', '' (x # xs))" by (rule join_Cons_sublist)
  then obtain ps ss where "join '', '' (x # xs) = ps @ x @ ss" by (auto simp: sublist_def)
  then have "updated_message title (x # xs) =
      (''Update for '' @ [CHR 0x27] @ title @ [CHR 0x27] @ '': '' @ ps) @ x @
      (ss @ '' have been changed. Please check the latest details.'')"
    by (simp add: updated_message_def)
  then show ?thesis unfolding sublist_def by blast
qed

text \<open>
  Claim C8. An edit that passes the form's checks (rate limit, required fields, dates in
  order), on a task with exactly one approved volunteer: if the submitted start date is not
  the stored one, exactly one notification is added, addressed to that volunteer, of type
  \<^verbatim>\<open>task_updated\<close>, and its message lists the changed fields, "Start date" among them; if
  every critical field is submitted with its stored value, no notification is added.
\<close>

theorem edit_start_date_notifies_once:
  assumes allowed: "allowed"
    and required: "edit_title f \<noteq> []" "edit_desc f \<noteq> []" "edit_loc f \<noteq> []" "edit_address f \<noteq> []"
      "edit_contact_email f \<noteq> []" "edit_contact_phone f \<noteq> []"
    and dates: "edit_start_date f = Some start_date" "edit_end_date f = Some end_date"
      "start_date \<le> end_date"
    and one: "approved_vols s (t_id task_to_edit) = [vol]"
  shows "(t_start_date task_to_edit \<noteq> Some start_date \<longrightarrow>
            (\<exists>message.
               notifications (submit_update_task allowed task_to_edit f s) =
                 notifications s @
                   [\<lparr>n_id = notifications_seq s + 1, n_user_type = ''volunteer'',
                     n_user_id = va_volunteer_id vol, n_message = message,
                     n_notification_type = ''task_updated'', n_related_id = t_id task_to_edit,
                     n_is_read = 0\<rparr>] \<and>
               sublist ''Start date'' message \<and>
               ''Start date'' \<in> set (critical_changes task_to_edit f start_date end_date) \<and>
               message = updated_message (edit_title f)
                           (critical_changes task_to_edit f start_date end_date))) \<and>
         (t_start_date task_to_edit = Some start_date \<and> t_end_date task_to_edit = Some end_date \<and>
          t_hours task_to_edit = Some (edit_hours f) \<and>
          t_location task_to_edit = Some (edit_loc f) \<and>
          t_address task_to_edit = Some (edit_address f) \<and>
          t_contact_email task_to_edit = Some (edit_contact_email f) \<and>
          t_contact_phone task_to_edit = Some (edit_contact_phone f) \<and>
          t_urgency task_to_edit = Some (edit_urgency f) \<and>
          t_physical_requirements task_to_edit = Some (edit_physical f) \<and>
          t_age_requirement task_to_edit = Some (edit_age_requirement f) \<and>
          t_equipment_needed task_to_edit = Some (edit_equipment f) \<longrightarrow>
            notifications (submit_update_task allowed task_to_edit f s) = notifications s)"
proof (intro conjI impI)
  assume changed: "t_start_date task_to_edit \<noteq> Some start_date"
  then have "changed_date (t_start_date task_to_edit) start_date"
    by (auto simp: changed_date_def split: option.splits)
  from critical_changes_start[OF this]
  obtain rest where ch: "critical_changes task_to_edit f start_date end_date = ''Start date'' # rest"
    by blast
  let ?m = "updated_message (edit_title f) (''Start date'' # rest)"
  have "notifications (submit_update_task allowed task_to_edit f s) =
      notifications s @
        [\<lparr>n_id = notifications_seq s + 1, n_user_type = ''volunteer'',
          n_user_id = va_volunteer_id vol, n_message = ?m,
          n_notification_type = ''task_updated'', n_related_id = t_id task_to_edit,
          n_is_read = 0\<rparr>]"
    using allowed required dates one
    by (simp add: submit_update_task_def Let_def ch approved_vols_update_task
        notifications_insert_notification update_task_frame)
  moreover have "sublist ''Start date'' ?m" by (rule updated_message_names_first)
  ultimately show "\<exists>message.
               notifications (submit_update_task allowed task_to_edit f s) =
                 notifications s @
                   [\<lparr>n_id = notifications_seq s + 1, n_user_type = ''volunteer'',
                     n_user_id = va_volunteer_id vol, n_message = message,
                     n_notification_type = ''task_updated'', n_related_id = t_id task_to_edit,
                     n_is_read = 0\<rparr>] \<and>
               sublist ''Start date'' message \<and>
               ''Start date'' \<in> set (critical_changes task_to_edit f start_date end_date) \<and>
               message = updated_message (edit_title f)
                           (critical_changes task_to_edit f start_date end_date)"
    by (simp add: ch)
next
  assume same: "t_start_date task_to_edit = Some start_date \<and> t_end_date task_to_edit = Some end_date \<and>
          t_hours task_to_edit = Some (edit_hours f) \<and>
          t_location task_to_edit = Some (edit_loc f) \<and>
          t_address task_to_edit = Some (edit_address f) \<and>
          t_contact_email task_to_edit = Some (edit_contact_email f) \<and>
          t_contact_phone task_to_edit = Some (edit_contact_phone f) \<and>
          t_urgency task_to_edit = Some (edit_urgency f) \<and>
          t_physical_requirements task_to_edit = Some (edit_physical f) \<and>
          t_age_requirement task_to_edit = Some (edit_age_requirement f) \<and>
          t_equipment_needed task_to_edit = Some (edit_equipment f)"
  then have "critical_changes task_to_edit f start_date end_date = []"
    by (intro critical_changes_none) simp_all
  then show "notifications (submit_update_task allowed task_to_edit f s) = notifications s"
    using allowed required dates
    by (simp add: submit_update_task_def Let_def update_task_frame)
qed

theorem edit_start_date_notifies_once_witness:
  "approved_vols approved_db 1 =
     [\<lparr>va_id = 1, va_task_id = 1, va_volunteer_id = 1, va_availability_date = Some 738000,
       va_hours_committed = Some 4, va_contact_email = Some ''a@example.org'',
       va_contact_phone = Some ''9000000001'', va_additional_notes = Some ''I live nearby'',
       va_approval_status = Some Approved, va_status = Some Accepted,
       va_completion_note = None, va_certificate_pushed = 0, va_monetisation_value = 0\<rparr>] \<and>
   map (\<lambda>n. (n_user_id n, n_message n))
     (notifications
        (submit_update_task True (demo_task\<lparr>t_status := Closed\<rparr>)
           (demo_form\<lparr>edit_start_date := Some 737999\<rparr>) approved_db)) =
     [(1, ''Update for '' @ [CHR 0x27] @ ''Beach cleanup'' @ [CHR 0x27] @
          '': Start date have been changed. Please check the latest details.'')] \<and>
   notifications (submit_update_task True (demo_task\<lparr>t_status := Closed\<rparr>) demo_form approved_db) = []"
proof -
  let ?vol = "\<lparr>va_id = 1, va_task_id = 1, va_volunteer_id = 1, va_availability_date = Some 738000,
       va_hours_committed = Some 4, va_contact_email = Some ''a@example.org'',
       va_contact_phone = Some ''9000000001'', va_additional_notes = Some ''I live nearby'',
       va_approval_status = Some Approved, va_status = Some Accepted,
       va_completion_note = None, va_certificate_pushed = 0, va_monetisation_value = 0\<rparr>"
  let ?t = "demo_task\<lparr>t_status := Closed\<rparr>"
  let ?f = "demo_form\<lparr>edit_start_date := Some 737999\<rparr>"
  have one: "approved_vols approved_db (t_id ?t) = [?vol]" by code_simp
  have one': "approved_vols approved_db 1 = [?vol]" by code_simp
  have none: "notifications approved_db = []" and seq: "notifications_seq approved_db = 0"
    by code_simp+
  have changes: "critical_changes ?t ?f 737999 738000 = [''Start date'']" by code_simp
  have changed: "t_start_date ?t \<noteq> Some 737999" by (simp add: demo_task_def)
  have title: "edit_title ?f = ''Beach cleanup''" by (simp add: demo_form_def)
  have "\<exists>message.
      notifications (submit_update_task True ?t ?f approved_db) =
        notifications approved_db @
          [\<lparr>n_id = notifications_seq approved_db + 1, n_user_type = ''volunteer'',
            n_user_id = va_volunteer_id ?vol, n_message = message,
            n_notification_type = ''task_updated'', n_related_id = t_id ?t, n_is_read = 0\<rparr>] \<and>
      sublist ''Start date'' message \<and>
      ''Start date'' \<in> set (critical_changes ?t ?f 737999 738000) \<and>
      message = updated_message (edit_title ?f) (critical_changes ?t ?f 737999 738000)"
    using edit_start_date_notifies_once[of True ?f 737999 738000 approved_db ?t ?vol] one changed
    by (simp add: demo_form_def)
  then have first: "map (\<lambda>n. (n_user_id n, n_message n))
     (notifications (submit_update_task True ?t ?f approved_db)) =
     [(1, ''Update for '' @ [CHR 0x27] @ ''Beach cleanup'' @ [CHR 0x27] @
          '': Start date have been changed. Please check the latest details.'')]"
    by (auto simp: none seq changes updated_message_def title)
  have "notifications (submit_update_task True ?t demo_form approved_db) = notifications approved_db"
    using edit_start_date_notifies_once[of True demo_form 738000 738000 approved_db ?t ?vol] one
    by (simp add: demo_form_def demo_task_def)
  with none first one' show ?thesis by simp
qed
section \<open>Atomicity\<close>

lemma notify_deleted_fail_at:
  "k \<le> length vs \<Longrightarrow>
   notify_deleted (\<lambda>i. i = j + k) j m tid vs s =
     (if k < length vs then (fst (notify_deleted (\<lambda>i. False) j m tid (take k vs) s), Some OperationalError)
      else (fst (notify_deleted (\<lambda>i. False) j m tid vs s), None))"
proof (induction vs arbitrary: j k s)
  case Nil
  then show ?case by simp
next
  case (Cons v vs)
  show ?case
  proof (cases k)
    case 0
    then show ?thesis by (simp add: execute_def)
  next
    case (Suc k')
    with Cons.prems have k': "k' \<le> length vs" by simp
    have eq: "(\<lambda>i. i = j + k) = (\<lambda>i. i = Suc j + k')" using Suc by auto
    show ?thesis
      using Cons.IH[OF k', of "Suc j"] Suc
      by (simp add: eq execute_def insert_notification_def)
  qed
qed

lemma notify_deleted_ok:
  "notify_deleted (\<lambda>i. False) j m tid vs s = (s', e) \<Longrightarrow>
   e = None \<and> tasks s' = tasks s \<and> volunteer_acceptances s' = volunteer_acceptances s \<and>
   volunteers s' = volunteers s \<and>
   map n_user_id (notifications s') = map n_user_id (notifications s) @ vs"
proof (induction vs arbitrary: j s)
  case Nil
  then show ?case by auto
next
  case (Cons v vs)
  from Cons.prems Cons.IH[of "Suc j" "fst (execute False (insert_notification v m ''task_deleted'' tid) s)"]
  show ?case
    by (auto simp: execute_def insert_notification_def)
qed

text \<open>
  Claim C6, as the handlers have it. One call of \<open>execute\<close> is atomic: when the storage fails
  during it, or its statement raises, the database is left as it was before the call. A
  handler that issues several calls is not: when the \<open>k\<close>-th call of "Confirm Delete" fails,
  the notifications of the first \<open>k\<close> volunteers stay stored, the others are not written and
  the task is not deleted.
\<close>

theorem single_write_atomic_handler_not:
  "execute True stmt s = (s, Some OperationalError) \<and>
   (stmt s = Inl e \<longrightarrow> execute False stmt s = (s, Some e)) \<and>
   (strip del_reason \<noteq> [] \<and> k \<le> length (affected_volunteers s (t_id t)) \<longrightarrow>
      (\<exists>s'. confirm_delete (\<lambda>i. i = k) t del_reason s = (s', Some OperationalError) \<and>
            map n_user_id (notifications s') =
              map n_user_id (notifications s) @ take k (affected_volunteers s (t_id t)) \<and>
            tasks s' = tasks s \<and> volunteer_acceptances s' = volunteer_acceptances s))"
proof (intro conjI impI)
  show "execute True stmt s = (s, Some OperationalError)" by (simp add: execute_def)
  show "execute False stmt s = (s, Some e)" if "stmt s = Inl e" using that by (simp add: execute_def)
next
  assume a: "strip del_reason \<noteq> [] \<and> k \<le> length (affected_volunteers s (t_id t))"
  let ?vs = "affected_volunteers s (t_id t)"
  let ?m = "deleted_message t del_reason"
  obtain s1 e1 where pre: "notify_deleted (\<lambda>i. False) 0 ?m (t_id t) (take k ?vs) s = (s1, e1)"
    by (cases "notify_deleted (\<lambda>i. False) 0 ?m (t_id t) (take k ?vs) s")
  note ok = notify_deleted_ok[OF pre]
  obtain s2 e2 where all: "notify_deleted (\<lambda>i. False) 0 ?m (t_id t) ?vs s = (s2, e2)"
    by (cases "notify_deleted (\<lambda>i. False) 0 ?m (t_id t) ?vs s")
  note ok2 = notify_deleted_ok[OF all]
  from a have k: "k \<le> length ?vs" by simp
  have nd: "notify_deleted (\<lambda>i. i = k) 0 ?m (t_id t) ?vs s =
     (if k < length ?vs then (s1, Some OperationalError) else (s2, None))"
    using notify_deleted_fail_at[OF k, of 0 ?m "t_id t" s] pre all by simp
  show "\<exists>s'. confirm_delete (\<lambda>i. i = k) t del_reason s = (s', Some OperationalError) \<and>
            map n_user_id (notifications s') =
              map n_user_id (notifications s) @ take k (affected_volunteers s (t_id t)) \<and>
            tasks s' = tasks s \<and> volunteer_acceptances s' = volunteer_acceptances s"
  proof (cases "k < length ?vs")
    case True
    with a nd ok show ?thesis by (simp add: confirm_delete_def)
  next
    case False
    with k have "k = length ?vs" by simp
    with a nd ok2 show ?thesis by (simp add: confirm_delete_def execute_def)
  qed
qed

theorem single_write_atomic_handler_not_witness:
  "affected_volunteers approved_db 1 = [1] \<and>
   (\<exists>s'. confirm_delete (\<lambda>i. i = 1) (demo_task\<lparr>t_status := Closed\<rparr>) ''The beach is closed''
            approved_db = (s', Some OperationalError) \<and>
         map n_user_id (notifications s') = [1] \<and> tasks s' = tasks approved_db) \<and>
   execute False (insert_acceptance 1 1 None 4 ''a@example.org'' ''9000000001'' ''Again'')
     approved_db = (approved_db, Some UniqueViolation)"
proof -
  let ?t = "demo_task\<lparr>t_status := Closed\<rparr>"
  have vs: "affected_volunteers approved_db (t_id ?t) = [1]" by code_simp
  have vs': "affected_volunteers approved_db 1 = [1]" by code_simp
  have none: "notifications approved_db = []" by code_simp
  have r: "strip ''The beach is closed'' \<noteq> []" by code_simp
  have dup: "insert_acceptance 1 1 None 4 ''a@example.org'' ''9000000001'' ''Again'' approved_db =
      Inl UniqueViolation" by code_simp
  have "\<exists>s'. confirm_delete (\<lambda>i. i = 1) ?t ''The beach is closed'' approved_db =
            (s', Some OperationalError) \<and>
         map n_user_id (notifications s') =
           map n_user_id (notifications approved_db) @ take 1 (affected_volunteers approved_db (t_id ?t)) \<and>
         tasks s' = tasks approved_db \<and> volunteer_acceptances s' = volunteer_acceptances approved_db"
    using single_write_atomic_handler_not
      [of "insert_acceptance 1 1 None 4 ''a@example.org'' ''9000000001'' ''Again''" approved_db
          UniqueViolation "''The beach is closed''" 1 ?t] r vs
    by simp
  moreover have "execute False (insert_acceptance 1 1 None 4 ''a@example.org'' ''9000000001'' ''Again'')
     approved_db = (approved_db, Some UniqueViolation)"
    using single_write_atomic_handler_not
      [of "insert_acceptance 1 1 None 4 ''a@example.org'' ''9000000001'' ''Again''" approved_db
          UniqueViolation "''The beach is closed''" 1 ?t] dup
    by blast
  ultimately show ?thesis using vs vs' none by auto
qed

text \<open>
  Claim C6 as stated fails. The task has one engagement; the storage fails during the second
  write of "Confirm Delete", the soft delete. The notification written by the first call
  stays: the database is not the one before the handler, and the task is not deleted.
\<close>

theorem confirm_delete_partial_write:
  "(case confirm_delete (\<lambda>k. k = 1) (demo_task\<lparr>t_status := Closed\<rparr>) ''The beach is closed''
           approved_db of
      (s', e) \<Rightarrow>
        e = Some OperationalError \<and> s' \<noteq> approved_db \<and> notifications approved_db = [] \<and>
        map n_user_id (notifications s') = [1] \<and> map t_is_deleted (tasks s') = [0])"
  by code_simp
section \<open>Completing an engagement\<close>

lemma round2_hundredths:
  "round2 (of_int n / 100 * of_int h * of_int d) = of_int n / 100 * of_int h * of_int d"
proof -
  have "of_int n / 100 * of_int h * of_int d * 100 = (of_int (n * h * d) :: rat)" by simp
  then show ?thesis by (simp add: round2_def del: of_int_mult)
qed

lemma same_id_same_row_ids:
  "acceptance_ids_ok s \<Longrightarrow> va \<in> set (volunteer_acceptances s) \<Longrightarrow>
   vol \<in> set (volunteer_acceptances s) \<Longrightarrow> va_id va = va_id vol \<Longrightarrow> va = vol"
  by (auto simp: acceptance_ids_ok_def distinct_map inj_on_def)

lemma update_acceptance_rows:
  assumes "acceptance_ids_ok s" "vol \<in> set (volunteer_acceptances s)"
  shows "volunteer_acceptances (fst (execute False (update_acceptance (va_id vol) g) s)) =
     map (\<lambda>va. if va = vol then g vol else va) (volunteer_acceptances s)"
proof -
  have "map (\<lambda>va. if va_id va = va_id vol then g va else va) (volunteer_acceptances s) =
      map (\<lambda>va. if va = vol then g vol else va) (volunteer_acceptances s)"
    using same_id_same_row_ids[OF assms(1) _ assms(2)] by (intro map_cong) auto
  then show ?thesis by (simp add: execute_def update_acceptance_def)
qed

lemma update_acceptance_frame:
  "volunteers (fst (execute False (update_acceptance aid g) s)) = volunteers s"
  "tasks (fst (execute False (update_acceptance aid g) s)) = tasks s"
  by (simp_all add: execute_def update_acceptance_def)

lemma sum_list_map_update_one:
  fixes f :: "'a \<Rightarrow> rat"
  assumes "distinct xs" "x \<in> set xs" "\<not> P x" "P y"
  shows "sum_list (map f (filter P (map (\<lambda>z. if z = x then y else z) xs))) =
         sum_list (map f (filter P xs)) + f y"
  using assms
proof (induction xs)
  case Nil
  then show ?case by simp
next
  case (Cons a xs)
  show ?case
  proof (cases "a = x")
    case True
    with Cons.prems have "x \<notin> set xs" by simp
    then have "map (\<lambda>z. if z = x then y else z) xs = xs" by (induction xs) auto
    with True Cons.prems show ?thesis by simp
  next
    case False
    with Cons show ?thesis by auto
  qed
qed


lemma volunteers_update_volunteer_total_value:
  "\<forall>v \<in> set (volunteers (update_volunteer_total_value vid s)).
     v_id v = vid \<longrightarrow> v_total_value_generated v = volunteer_total s vid"
proof (intro ballI impI)
  fix v
  assume mem: "v \<in> set (volunteers (update_volunteer_total_value vid s))" and v: "v_id v = vid"
  from mem have "v \<in> (\<lambda>x. if v_id x = vid
      then x\<lparr>v_total_value_generated := volunteer_total s vid\<rparr> else x) ` set (volunteers s)"
    by (simp add: update_volunteer_total_value_def)
  then obtain x where
    "v = (if v_id x = vid then x\<lparr>v_total_value_generated := volunteer_total s vid\<rparr> else x)"
    by blast
  with v show "v_total_value_generated v = volunteer_total s vid"
    by (cases "v_id x = vid") simp_all
qed

lemma update_volunteer_total_value_frame:
  "volunteer_acceptances (update_volunteer_total_value vid s) = volunteer_acceptances s"
  "tasks (update_volunteer_total_value vid s) = tasks s"
  by (simp_all add: update_volunteer_total_value_def)

lemma volunteer_total_cong:
  "volunteer_acceptances s' = volunteer_acceptances s \<Longrightarrow> volunteer_total s' v = volunteer_total s v"
  by (simp add: volunteer_total_def)

text \<open>
  Claim C4, as the handler has it. "Work Completed" on an approved, accepted engagement of
  a database with unique row ids. If the task row has a start date, an end date not before
  it, hours, and a wage rate that is set and not 0: the engagement becomes completed, its
  value becomes the calculator's value for the wage rate, the hours and the inclusive number
  of days, which is their product when the wage rate is positive with at most two decimals;
  the volunteer's stored aggregate becomes the recomputed total, and that total has grown by
  the value. If the task row lacks a start date, an end date or a wage rate, or its wage rate
  is 0: the engagement only becomes completed; value and stored aggregates stay as they were.
\<close>

theorem work_completed_value:
  assumes ids: "acceptance_ids_ok s"
    and shown: "vol \<in> set (approved_vols s (t_id t))"
    and accepted: "va_status vol = Some Accepted"
    and task: "fetchone (filter (\<lambda>x. t_id x = t_id t) (tasks s)) = Some task_data"
  shows "(t_start_date task_data = Some start_date \<and> t_end_date task_data = Some end_date \<and>
          start_date \<le> end_date \<and> t_wage_rate task_data = Some wage_rate \<and> wage_rate \<noteq> 0 \<and>
          t_hours task_data = Some hours \<longrightarrow>
            (let monetisation_value =
                   calculate_volunteer_value (Some wage_rate) hours (end_date - start_date + 1);
                 s' = work_completed t vol s
             in volunteer_acceptances s' =
                  map (\<lambda>va. if va = vol
                             then vol\<lparr>va_status := Some Completed, va_completion_note := None,
                                      va_monetisation_value := monetisation_value\<rparr>
                             else va) (volunteer_acceptances s) \<and>
                (\<forall>v \<in> set (volunteers s'). v_id v = va_volunteer_id vol \<longrightarrow>
                   v_total_value_generated v = volunteer_total s' (va_volunteer_id vol)) \<and>
                volunteer_total s' (va_volunteer_id vol) =
                  volunteer_total s (va_volunteer_id vol) + monetisation_value \<and>
                (0 < wage_rate \<and> (\<exists>n. wage_rate = of_int n / 100) \<longrightarrow>
                   monetisation_value =
                     wage_rate * of_int hours * of_int (end_date - start_date + 1)))) \<and>
         (t_start_date task_data = None \<or> t_end_date task_data = None \<or>
          t_wage_rate task_data = None \<or> t_wage_rate task_data = Some 0 \<longrightarrow>
            work_completed t vol s = mark_completed vol s \<and>
            volunteers (work_completed t vol s) = volunteers s \<and>
            volunteer_acceptances (work_completed t vol s) =
              map (\<lambda>va. if va = vol
                         then vol\<lparr>va_status := Some Completed, va_completion_note := None\<rparr>
                         else va) (volunteer_acceptances s))"
proof (intro conjI impI)
  from shown have vol: "vol \<in> set (volunteer_acceptances s)"
    and approved: "va_approval_status vol = Some Approved"
    by (auto simp: approved_vols_def)
  {
    assume a: "t_start_date task_data = Some start_date \<and> t_end_date task_data = Some end_date \<and>
          start_date \<le> end_date \<and> t_wage_rate task_data = Some wage_rate \<and> wage_rate \<noteq> 0 \<and>
          t_hours task_data = Some hours"
    define val where "val = calculate_volunteer_value (Some wage_rate) hours (end_date - start_date + 1)"
    define vol' where "vol' = vol\<lparr>va_status := Some Completed, va_completion_note := None,
                                      va_monetisation_value := val\<rparr>"
    define s1 where "s1 = fst (execute False
                                  (update_acceptance (va_id vol)
                                     (\<lambda>va. va\<lparr>va_status := Some Completed,
                                               va_completion_note := None,
                                               va_monetisation_value := val\<rparr>)) s)"
    have wc: "work_completed t vol s = update_volunteer_total_value (va_volunteer_id vol) s1"
      using a task
      by (simp add: work_completed_def calculate_duration_days_def Let_def val_def s1_def)
    have rows1: "volunteer_acceptances s1 =
        map (\<lambda>va. if va = vol then vol' else va) (volunteer_acceptances s)"
      unfolding s1_def vol'_def by (rule update_acceptance_rows[OF ids vol])
    have rows: "volunteer_acceptances (work_completed t vol s) =
        map (\<lambda>va. if va = vol then vol' else va) (volunteer_acceptances s)"
      by (simp add: wc update_volunteer_total_value_frame rows1)
    have stored: "\<forall>v \<in> set (volunteers (work_completed t vol s)). v_id v = va_volunteer_id vol \<longrightarrow>
        v_total_value_generated v = volunteer_total (work_completed t vol s) (va_volunteer_id vol)"
      using volunteers_update_volunteer_total_value[of "va_volunteer_id vol" s1]
        volunteer_total_cong[of "work_completed t vol s" s1 "va_volunteer_id vol"]
      by (simp add: wc update_volunteer_total_value_frame)
    have dist: "distinct (volunteer_acceptances s)"
      using ids by (simp add: acceptance_ids_ok_def distinct_map)
    have total: "volunteer_total (work_completed t vol s) (va_volunteer_id vol) =
        volunteer_total s (va_volunteer_id vol) + val"
      unfolding volunteer_total_def rows
      using sum_list_map_update_one[OF dist vol, of
          "\<lambda>va. va_volunteer_id va = va_volunteer_id vol \<and> va_status va = Some Completed \<and>
                 va_approval_status va = Some Approved" vol' va_monetisation_value]
        accepted approved
      by (simp add: vol'_def)
    have exact: "val = wage_rate * of_int hours * of_int (end_date - start_date + 1)"
      if h: "0 < wage_rate \<and> (\<exists>n. wage_rate = of_int n / 100)"
    proof -
      from h obtain n where n: "wage_rate = of_int n / 100" by blast
      have "val = round2 (wage_rate * of_int hours * of_int (end_date - start_date + 1))"
        using h by (simp add: val_def calculate_volunteer_value_def)
      also have "\<dots> = wage_rate * of_int hours * of_int (end_date - start_date + 1)"
        unfolding n by (rule round2_hundredths)
      finally show ?thesis .
    qed
    show "(let monetisation_value =
                   calculate_volunteer_value (Some wage_rate) hours (end_date - start_date + 1);
                 s' = work_completed t vol s
             in volunteer_acceptances s' =
                  map (\<lambda>va. if va = vol
                             then vol\<lparr>va_status := Some Completed, va_completion_note := None,
                                      va_monetisation_value := monetisation_value\<rparr>
                             else va) (volunteer_acceptances s) \<and>
                (\<forall>v \<in> set (volunteers s'). v_id v = va_volunteer_id vol \<longrightarrow>
                   v_total_value_generated v = volunteer_total s' (va_volunteer_id vol)) \<and>
                volunteer_total s' (va_volunteer_id vol) =
                  volunteer_total s (va_volunteer_id vol) + monetisation_value \<and>
                (0 < wage_rate \<and> (\<exists>n. wage_rate = of_int n / 100) \<longrightarrow>
                   monetisation_value =
                     wage_rate * of_int hours * of_int (end_date - start_date + 1)))"
      unfolding Let_def val_def[symmetric]
      using rows stored total exact by (simp add: vol'_def)
  }
  {
    assume b: "t_start_date task_data = None \<or> t_end_date task_data = None \<or>
          t_wage_rate task_data = None \<or> t_wage_rate task_data = Some 0"
    show eq: "work_completed t vol s = mark_completed vol s"
      using b task by (auto simp: work_completed_def split: option.splits)
    show "volunteers (work_completed t vol s) = volunteers s"
      by (simp add: eq mark_completed_def update_acceptance_frame)
    show "volunteer_acceptances (work_completed t vol s) =
              map (\<lambda>va. if va = vol
                         then vol\<lparr>va_status := Some Completed, va_completion_note := None\<rparr>
                         else va) (volunteer_acceptances s)"
      unfolding eq mark_completed_def by (rule update_acceptance_rows[OF ids vol])
  }
qed

theorem work_completed_value_witness:
  "volunteer_total approved_db 1 = 0 \<and>
   volunteer_total
     (work_completed (demo_task\<lparr>t_status := Closed\<rparr>) (hd (volunteer_acceptances approved_db))
        approved_db) 1 = 1200 \<and>
   map (\<lambda>va. (va_status va, va_monetisation_value va))
     (volunteer_acceptances
        (work_completed (demo_task\<lparr>t_status := Closed\<rparr>) (hd (volunteer_acceptances approved_db))
           approved_db)) = [(Some Completed, 1200)] \<and>
   map v_total_value_generated
     (volunteers
        (work_completed (demo_task\<lparr>t_status := Closed\<rparr>) (hd (volunteer_acceptances approved_db))
           approved_db)) = [1200, 0]"
proof -
  let ?t = "demo_task\<lparr>t_status := Closed\<rparr>"
  let ?vol = "hd (volunteer_acceptances approved_db)"
  let ?s' = "work_completed ?t ?vol approved_db"
  have ids: "acceptance_ids_ok approved_db" by code_simp
  have shown: "?vol \<in> set (approved_vols approved_db (t_id ?t))" by code_simp
  have accepted: "va_status ?vol = Some Accepted" by code_simp
  have task: "fetchone (filter (\<lambda>x. t_id x = t_id ?t) (tasks approved_db)) = Some ?t" by code_simp
  have before: "volunteer_total approved_db 1 = 0" by code_simp
  have who: "va_volunteer_id ?vol = 1" by code_simp
  have fields: "t_start_date ?t = Some 738000 \<and> t_end_date ?t = Some 738000 \<and>
      (738000::int) \<le> 738000 \<and> t_wage_rate ?t = Some 300 \<and> (300::rat) \<noteq> 0 \<and>
      t_hours ?t = Some 4"
    by (simp add: demo_task_def)
  have hundredths: "(0::rat) < 300 \<and> (\<exists>n. (300::rat) = of_int n / 100)"
    by (intro conjI exI[of _ 30000]) simp_all
  note claim = work_completed_value[OF ids shown accepted task, of 738000 738000 300 4]
  note effect = mp[OF conjunct1[OF claim] fields, unfolded Let_def]
  have val: "calculate_volunteer_value (Some 300) 4 (738000 - 738000 + 1) = 1200"
    using mp[OF conjunct2[OF conjunct2[OF conjunct2[OF effect]]] hundredths] by simp
  have val1: "calculate_volunteer_value (Some 300) 4 1 = 1200"
    using val by simp
  have total: "volunteer_total ?s' 1 = 1200"
    using conjunct1[OF conjunct2[OF conjunct2[OF effect]]] by (simp add: who before val1)
  have rows: "map (\<lambda>va. (va_status va, va_monetisation_value va)) (volunteer_acceptances ?s') =
        [(Some Completed, 1200)]"
    by code_simp
  have stored: "map v_total_value_generated (volunteers ?s') = [1200, 0]"
    by code_simp
  from before total rows stored show ?thesis by (intro conjI)
qed

text \<open>
  Claim C4 as stated fails. Volunteer 1 completes the first task (value and aggregate 1200)
  and is then removed from it by the organisation, which leaves the stored aggregate at
  1200. The volunteer is approved for the second task, whose wage rate is 0. "Work
  Completed" on that approved, accepted engagement only marks it completed: the stored
  aggregate stays 1200, while the recomputed total of the volunteer's completed work is 0.
\<close>

theorem work_completed_without_wage_rate:
  "(let s = run [Apply 1 1 ''a@example.org'' ''9000000001'' ''I live nearby'',
                 Approve 1 1 1 True, Work_completed 1 1 1, Remove 1 1 1,
                 Apply 1 2 ''a@example.org'' ''9000000001'' ''I like trees'',
                 Approve 1 2 2 True] two_task_db;
        s' = step s (Work_completed 1 2 2)
    in map (\<lambda>va. (va_id va, va_approval_status va, va_status va)) (volunteer_acceptances s) =
         [(2, Some Approved, Some Accepted)] \<and>
       map (\<lambda>va. (va_id va, va_approval_status va, va_status va)) (volunteer_acceptances s') =
         [(2, Some Approved, Some Completed)] \<and>
       map v_total_value_generated (filter (\<lambda>v. v_id v = 1) (volunteers s')) = [1200] \<and>
       volunteer_total s' 1 = 0)"
  by code_simp

end
